theory Spec2Isabelle
  imports Main
begin

section \<open>Persistence schema\<close>

text \<open>
  The tables of \<^verbatim>\<open>api/models.py\<close> and \<^verbatim>\<open>users/models.py\<close>. A model class is a record,
  a table is the list of its rows in insertion order, and a foreign key is the primary
  key of the row it points to. The surrogate \<^verbatim>\<open>id\<close> column of the join and membership
  tables (IngredientRecipe, Favorite, Subscribe, ShoppingCart and the implicit
  recipe-tag table) is left out: no code under study reads it. Foreign-key
  constraints are not checked by the model: the handlers only write keys of rows they
  have just read.
\<close>

type_synonym pk = int

record CustomUser =
  user_id :: pk
  email :: string
  username :: string
  first_name :: string
  last_name :: string
  is_subscribed :: bool

record Tag =
  tag_id :: pk
  tag_name :: string
  color :: "string option"
  slug :: "string option"

record Ingredient =
  ingredient_id :: pk
  ingredient_name :: string
  measurement_unit :: string

record Recipe =
  recipe_id :: pk
  recipe_image :: string
  recipe_name :: string
  recipe_text :: string
  cooking_time :: int
  recipe_author :: "pk option"

record IngredientRecipe =
  ir_recipe :: pk
  ir_ingredient :: pk
  ir_amount :: int

text \<open>
  Favorite and ShoppingCart declare the same two columns, \<^verbatim>\<open>recipe\<close> and \<^verbatim>\<open>user\<close>;
  the views pass the class itself as \<^verbatim>\<open>model\<close>. One row type serves both, and
  \<open>model\<close> names the class.
\<close>

record RecipeUser =
  row_recipe :: pk
  row_user :: pk

datatype model = Favorite | ShoppingCart

record Subscribe =
  sub_author :: pk
  sub_follower :: pk

record database =
  users :: "CustomUser list"
  tags :: "Tag list"
  ingredients :: "Ingredient list"
  recipes :: "Recipe list"
  recipe_tags :: "(pk \<times> pk) list"
  ingredientrecipes :: "IngredientRecipe list"
  favorites :: "RecipeUser list"
  subscribes :: "Subscribe list"
  shopping_carts :: "RecipeUser list"

text \<open>\<^verbatim>\<open>request.user\<close>: the anonymous user, or the authenticated user of that key.\<close>

datatype request_user = AnonymousUser | AuthUser pk

datatype http_method = POST | DELETE

section \<open>Strings\<close>

text \<open>
  A Python \<^verbatim>\<open>str\<close> is modelled by its UTF-8 encoding, the bytes the response carries;
  concatenation and equality are the same on both. \<open>str_int\<close> is Python's \<^verbatim>\<open>str\<close> on an
  integer, as an f-string applies it.
\<close>

fun str_nat :: "nat \<Rightarrow> string" where
  "str_nat n =
     (if n < 10 then [''0123456789'' ! n]
      else str_nat (n div 10) @ [''0123456789'' ! (n mod 10)])"

declare str_nat.simps [simp del]

definition str_int :: "int \<Rightarrow> string" where
  "str_int i = (if i < 0 then CHR ''-'' # str_nat (nat (- i)) else str_nat (nat i))"

section \<open>Errors\<close>

text \<open>
  Every \<^verbatim>\<open>raise ValidationError({...})\<close> of \<^verbatim>\<open>api/serializers.py\<close> is one constructor of
  \<open>message\<close>, in the order of the file; \<open>message_text\<close> is the literal it carries.
  The formatted ones take the value the f-string interpolates: the tag's \<^verbatim>\<open>__str__\<close>
  (its name) or the ingredient id.
\<close>

datatype message =
    TagsEmpty
  | TagDuplicated string
  | ImageEmpty
  | CookingTimeLess
  | IngredientsEmpty
  | IngredientNonexistent pk
  | IngredientDuplicated pk
  | AmountLess
  | AlreadyInCartOrFavorite
  | NotInCartOrFavorite
  | AlreadySubscribed
  | SelfSubscribe
  | NoSubscription

definition pole :: string where
  "pole = [CHR 0xD0, CHR 0x9F, CHR 0xD0, CHR 0xBE, CHR 0xD0, CHR 0xBB, CHR 0xD0, CHR 0xB5]"

definition pustoe :: string where
  "pustoe = [CHR 0xD0, CHR 0xBF, CHR 0xD1, CHR 0x83, CHR 0xD1, CHR 0x81, CHR 0xD1, CHR 0x82,
             CHR 0xD0, CHR 0xBE, CHR 0xD0, CHR 0xB5]"

definition menshe :: string where
  "menshe = [CHR 0xD0, CHR 0xBC, CHR 0xD0, CHR 0xB5, CHR 0xD0, CHR 0xBD, CHR 0xD1, CHR 0x8C,
             CHR 0xD1, CHR 0x88, CHR 0xD0, CHR 0xB5]"

definition dubliruetsya :: string where
  "dubliruetsya =
     [CHR 0xD0, CHR 0xB4, CHR 0xD1, CHR 0x83, CHR 0xD0, CHR 0xB1, CHR 0xD0, CHR 0xBB,
      CHR 0xD0, CHR 0xB8, CHR 0xD1, CHR 0x80, CHR 0xD1, CHR 0x83, CHR 0xD0, CHR 0xB5,
      CHR 0xD1, CHR 0x82, CHR 0xD1, CHR 0x81, CHR 0xD1, CHR 0x8F]"

definition ingredient_s_id :: string where
  "ingredient_s_id =
     [CHR 0xD0, CHR 0xB8, CHR 0xD0, CHR 0xBD, CHR 0xD0, CHR 0xB3, CHR 0xD1, CHR 0x80,
      CHR 0xD0, CHR 0xB5, CHR 0xD0, CHR 0xB4, CHR 0xD0, CHR 0xB8, CHR 0xD0, CHR 0xB5,
      CHR 0xD0, CHR 0xBD, CHR 0xD1, CHR 0x82] @ '' '' @ [CHR 0xD1, CHR 0x81] @ '' id ''"

definition Ingredient_s_id :: string where
  "Ingredient_s_id =
     [CHR 0xD0, CHR 0x98, CHR 0xD0, CHR 0xBD, CHR 0xD0, CHR 0xB3, CHR 0xD1, CHR 0x80,
      CHR 0xD0, CHR 0xB5, CHR 0xD0, CHR 0xB4, CHR 0xD0, CHR 0xB8, CHR 0xD0, CHR 0xB5,
      CHR 0xD0, CHR 0xBD, CHR 0xD1, CHR 0x82] @ '' '' @ [CHR 0xD1, CHR 0x81] @ '' id ''"

definition v_korzine_izbrannom :: string where
  "v_korzine_izbrannom =
     [CHR 0xD0, CHR 0xB2] @ '' '' @
     [CHR 0xD0, CHR 0xBA, CHR 0xD0, CHR 0xBE, CHR 0xD1, CHR 0x80, CHR 0xD0, CHR 0xB7,
      CHR 0xD0, CHR 0xB8, CHR 0xD0, CHR 0xBD, CHR 0xD0, CHR 0xB5] @ ''/'' @
     [CHR 0xD0, CHR 0xB8, CHR 0xD0, CHR 0xB7, CHR 0xD0, CHR 0xB1, CHR 0xD1, CHR 0x80,
      CHR 0xD0, CHR 0xB0, CHR 0xD0, CHR 0xBD, CHR 0xD0, CHR 0xBD, CHR 0xD0, CHR 0xBE,
      CHR 0xD0, CHR 0xBC] @ ''.''"

fun message_text :: "message \<Rightarrow> string" where
  "message_text TagsEmpty = pole @ '' Tags '' @ pustoe @ ''.''"
| "message_text (TagDuplicated field_data) = field_data @ '' '' @ dubliruetsya @ ''.''"
| "message_text ImageEmpty = pole @ '' Image '' @ pustoe @ ''.''"
| "message_text CookingTimeLess = pole @ '' Cooking_time '' @ menshe @ '' 1.''"
| "message_text IngredientsEmpty = pole @ '' Ingredients '' @ pustoe @ ''.''"
| "message_text (IngredientNonexistent i) =
     [CHR 0xD0, CHR 0x9D, CHR 0xD0, CHR 0xB5, CHR 0xD1, CHR 0x81, CHR 0xD1, CHR 0x83,
      CHR 0xD1, CHR 0x89, CHR 0xD0, CHR 0xB5, CHR 0xD1, CHR 0x81, CHR 0xD1, CHR 0x82,
      CHR 0xD0, CHR 0xB2, CHR 0xD1, CHR 0x83, CHR 0xD1, CHR 0x8E, CHR 0xD1, CHR 0x89,
      CHR 0xD0, CHR 0xB8, CHR 0xD0, CHR 0xB9] @ '' '' @ ingredient_s_id
     @ str_int i"
| "message_text (IngredientDuplicated i) =
     Ingredient_s_id @ str_int i @ '' '' @ dubliruetsya @ ''.''"
| "message_text AmountLess = pole @ '' amount '' @ menshe @ '' 1.''"
| "message_text AlreadyInCartOrFavorite =
     [CHR 0xD0, CHR 0xA0, CHR 0xD0, CHR 0xB5, CHR 0xD1, CHR 0x86, CHR 0xD0, CHR 0xB5,
      CHR 0xD0, CHR 0xBF, CHR 0xD1, CHR 0x82] @ '' '' @
     [CHR 0xD1, CHR 0x83, CHR 0xD0, CHR 0xB6, CHR 0xD0, CHR 0xB5] @ '' '' @ v_korzine_izbrannom"
| "message_text NotInCartOrFavorite =
     [CHR 0xD0, CHR 0xA2, CHR 0xD0, CHR 0xB0, CHR 0xD0, CHR 0xBA, CHR 0xD0, CHR 0xBE,
      CHR 0xD0, CHR 0xB3, CHR 0xD0, CHR 0xBE] @ '' '' @
     [CHR 0xD1, CHR 0x80, CHR 0xD0, CHR 0xB5, CHR 0xD1, CHR 0x86, CHR 0xD0, CHR 0xB5,
      CHR 0xD0, CHR 0xBF, CHR 0xD1, CHR 0x82, CHR 0xD0, CHR 0xB0] @ '' '' @
     [CHR 0xD0, CHR 0xBD, CHR 0xD0, CHR 0xB5, CHR 0xD1, CHR 0x82] @ '' '' @ v_korzine_izbrannom"
| "message_text AlreadySubscribed =
     [CHR 0xD0, CHR 0x92, CHR 0xD1, CHR 0x8B] @ '' '' @
     [CHR 0xD1, CHR 0x83, CHR 0xD0, CHR 0xB6, CHR 0xD0, CHR 0xB5] @ '' '' @
     [CHR 0xD0, CHR 0xBF, CHR 0xD0, CHR 0xBE, CHR 0xD0, CHR 0xB4, CHR 0xD0, CHR 0xBF,
      CHR 0xD0, CHR 0xB8, CHR 0xD1, CHR 0x81, CHR 0xD0, CHR 0xB0, CHR 0xD0, CHR 0xBD,
      CHR 0xD1, CHR 0x8B] @ ''.''"
| "message_text SelfSubscribe =
     [CHR 0xD0, CHR 0x9D, CHR 0xD0, CHR 0xB5, CHR 0xD0, CHR 0xBB, CHR 0xD1, CHR 0x8C,
      CHR 0xD0, CHR 0xB7, CHR 0xD1, CHR 0x8F] @ '' '' @
     [CHR 0xD0, CHR 0xBF, CHR 0xD0, CHR 0xBE, CHR 0xD0, CHR 0xB4, CHR 0xD0, CHR 0xBF,
      CHR 0xD0, CHR 0xB8, CHR 0xD1, CHR 0x81, CHR 0xD0, CHR 0xB0, CHR 0xD1, CHR 0x82,
      CHR 0xD1, CHR 0x8C, CHR 0xD1, CHR 0x81, CHR 0xD1, CHR 0x8F] @ '' '' @
     [CHR 0xD0, CHR 0xBD, CHR 0xD0, CHR 0xB0] @ '' '' @
     [CHR 0xD1, CHR 0x81, CHR 0xD0, CHR 0xB5, CHR 0xD0, CHR 0xB1, CHR 0xD1, CHR 0x8F] @ ''.''"
| "message_text NoSubscription =
     [CHR 0xD0, CHR 0x9D, CHR 0xD0, CHR 0xB5, CHR 0xD1, CHR 0x81, CHR 0xD1, CHR 0x83,
      CHR 0xD1, CHR 0x89, CHR 0xD0, CHR 0xB5, CHR 0xD1, CHR 0x81, CHR 0xD1, CHR 0x82,
      CHR 0xD0, CHR 0xB2, CHR 0xD1, CHR 0x83, CHR 0xD1, CHR 0x8E, CHR 0xD1, CHR 0x89,
      CHR 0xD0, CHR 0xB0, CHR 0xD1, CHR 0x8F] @ '' '' @
     [CHR 0xD0, CHR 0xBF, CHR 0xD0, CHR 0xBE, CHR 0xD0, CHR 0xB4, CHR 0xD0, CHR 0xBF,
      CHR 0xD0, CHR 0xB8, CHR 0xD1, CHR 0x81, CHR 0xD0, CHR 0xBA, CHR 0xD0, CHR 0xB0] @ ''.''"

text \<open>
  What the framework's own fields and validators report, by their error code:
  \<^verbatim>\<open>required\<close> and \<^verbatim>\<open>null\<close> of every field, \<^verbatim>\<open>does_not_exist\<close> of
  PrimaryKeyRelatedField (with the key), \<^verbatim>\<open>min_value\<close> of MinValueValidator,
  \<^verbatim>\<open>unique\<close> of the validator a ModelSerializer derives from \<^verbatim>\<open>unique=True\<close>, and
  \<^verbatim>\<open>invalid_image\<close> of the image field.
\<close>

datatype field_code = required | null | does_not_exist pk | min_value | unique | invalid_image

datatype error_detail = Raised message | Code field_code

text \<open>
  The exceptions that leave a handler. A ValidationError carries its detail: the
  messages of each field, under the field's name (\<^verbatim>\<open>non_field_errors\<close> for the
  serializer's \<^verbatim>\<open>validate\<close>).
\<close>

datatype error =
    ValidationError "(string \<times> error_detail list) list"
  | Http404
  | DoesNotExist
  | MultipleObjectsReturned
  | IntegrityError
  | DataError
  | KeyError string
  | ValueError

text \<open>
  The status of a response: the one the view returns, or the one the framework's
  exception handler gives the exception (an exception it does not handle is a 500).
\<close>

definition status_code :: "error + nat \<Rightarrow> nat" where
  "status_code r =
     (case r of
        Inr status \<Rightarrow> status
      | Inl (ValidationError _) \<Rightarrow> 400
      | Inl Http404 \<Rightarrow> 404
      | Inl _ \<Rightarrow> 500)"

definition non_field_error :: "message \<Rightarrow> error" where
  "non_field_error m = ValidationError [(''non_field_errors'', [Raised m])]"

section \<open>Query sets and the storage layer\<close>

text \<open>
  \<^verbatim>\<open>Model.objects.filter(...)\<close> is \<^const>\<open>filter\<close> on the table, \<^verbatim>\<open>.exists()\<close> asks whether
  the result has a row, and \<^verbatim>\<open>Model.objects.get(...)\<close> raises unless exactly one row
  matches. \<^verbatim>\<open>get_object_or_404\<close> turns the DoesNotExist of \<^verbatim>\<open>get\<close> into Http404.
\<close>

definition exists_qs :: "'a list \<Rightarrow> bool" where
  "exists_qs qs = (qs \<noteq> [])"

definition objects_get :: "('a \<Rightarrow> bool) \<Rightarrow> 'a list \<Rightarrow> error + 'a" where
  "objects_get P table =
     (case filter P table of
        [] \<Rightarrow> Inl DoesNotExist
      | [x] \<Rightarrow> Inr x
      | _ \<Rightarrow> Inl MultipleObjectsReturned)"

definition get_object_or_404 :: "('a \<Rightarrow> bool) \<Rightarrow> 'a list \<Rightarrow> error + 'a" where
  "get_object_or_404 P table =
     (case objects_get P table of
        Inl DoesNotExist \<Rightarrow> Inl Http404
      | r \<Rightarrow> r)"

text \<open>The table of a membership class, and the database with that table replaced.\<close>

definition objects :: "model \<Rightarrow> database \<Rightarrow> RecipeUser list" where
  "objects m d = (case m of Favorite \<Rightarrow> favorites d | ShoppingCart \<Rightarrow> shopping_carts d)"

definition with_objects :: "model \<Rightarrow> RecipeUser list \<Rightarrow> database \<Rightarrow> database" where
  "with_objects m rows d =
     (case m of
        Favorite \<Rightarrow> d\<lparr>favorites := rows\<rparr>
      | ShoppingCart \<Rightarrow> d\<lparr>shopping_carts := rows\<rparr>)"

text \<open>
  \<^verbatim>\<open>model.objects.create(recipe=recipe, user=user)\<close>: the insert is refused with an
  IntegrityError when it would break the class's UniqueConstraint on (recipe, user)
  (\<^verbatim>\<open>unique_favorite\<close>, \<^verbatim>\<open>unique_shoping_cart\<close>).
\<close>

definition model_objects_create ::
  "model \<Rightarrow> pk \<Rightarrow> pk \<Rightarrow> database \<Rightarrow> (error + unit) \<times> database" where
  "model_objects_create m recipe user d =
     (if exists_qs (filter (\<lambda>x. row_recipe x = recipe \<and> row_user x = user) (objects m d))
      then (Inl IntegrityError, d)
      else (Inr (), with_objects m
              (objects m d @ [\<lparr>row_recipe = recipe, row_user = user\<rparr>]) d))"

text \<open>\<^verbatim>\<open>Subscribe.objects.create\<close>, under \<^verbatim>\<open>unique_subscribe\<close> on (author, follower).\<close>

definition Subscribe_objects_create ::
  "pk \<Rightarrow> pk \<Rightarrow> database \<Rightarrow> (error + unit) \<times> database" where
  "Subscribe_objects_create author follower d =
     (if exists_qs (filter (\<lambda>s. sub_author s = author \<and> sub_follower s = follower)
                      (subscribes d))
      then (Inl IntegrityError, d)
      else (Inr (), d\<lparr>subscribes :=
              subscribes d @ [\<lparr>sub_author = author, sub_follower = follower\<rparr>]\<rparr>))"

section \<open>Per-viewer flags of the serializers\<close>

text \<open>
  \<^verbatim>\<open>CustomUserSerializer.get_is_subscribed(obj)\<close>: the requester is the follower, the
  serialized user the author. The stored column \<^const>\<open>is_subscribed\<close> is not read.
\<close>

definition get_is_subscribed :: "database \<Rightarrow> request_user \<Rightarrow> CustomUser \<Rightarrow> bool" where
  "get_is_subscribed d follower obj =
     (case follower of
        AuthUser f \<Rightarrow>
          exists_qs (filter (\<lambda>s. sub_author s = user_id obj \<and> sub_follower s = f)
                       (subscribes d))
      | AnonymousUser \<Rightarrow> False)"

text \<open>
  The output of \<^verbatim>\<open>CustomUserSerializer\<close>: \<^verbatim>\<open>Meta.fields\<close> in their order, the last one
  the method field.
\<close>

record user_representation =
  out_email :: string
  out_id :: pk
  out_username :: string
  out_first_name :: string
  out_last_name :: string
  out_is_subscribed :: bool

definition CustomUserSerializer_data ::
  "database \<Rightarrow> request_user \<Rightarrow> CustomUser \<Rightarrow> user_representation" where
  "CustomUserSerializer_data d requester obj =
     \<lparr>out_email = email obj, out_id = user_id obj, out_username = username obj,
      out_first_name = first_name obj, out_last_name = last_name obj,
      out_is_subscribed = get_is_subscribed d requester obj\<rparr>"

text \<open>
  \<^verbatim>\<open>RecipeSerializer.get_is_favorited\<close> and \<^verbatim>\<open>get_is_in_shopping_cart\<close>: the reverse
  managers \<^verbatim>\<open>obj.favorites\<close> and \<^verbatim>\<open>obj.shopping_cart\<close> are the rows of the recipe.
\<close>

definition get_is_favorited :: "database \<Rightarrow> request_user \<Rightarrow> Recipe \<Rightarrow> bool" where
  "get_is_favorited d user obj =
     (case user of
        AuthUser u \<Rightarrow>
          exists_qs (filter (\<lambda>f. row_user f = u)
                       (filter (\<lambda>f. row_recipe f = recipe_id obj) (favorites d)))
      | AnonymousUser \<Rightarrow> False)"

definition get_is_in_shopping_cart :: "database \<Rightarrow> request_user \<Rightarrow> Recipe \<Rightarrow> bool" where
  "get_is_in_shopping_cart d user obj =
     (case user of
        AuthUser u \<Rightarrow>
          exists_qs (filter (\<lambda>c. row_user c = u)
                       (filter (\<lambda>c. row_recipe c = recipe_id obj) (shopping_carts d)))
      | AnonymousUser \<Rightarrow> False)"

section \<open>Favorite and shopping-cart toggle\<close>

text \<open>
  \<^verbatim>\<open>RecipeMinifiedSerializer.validate\<close>. Every field of the serializer is read-only, so
  the request body contributes nothing and \<^verbatim>\<open>data\<close> is the empty dictionary; the
  context gives the recipe, the user and the class.
\<close>

definition RecipeMinifiedSerializer_validate ::
  "model \<Rightarrow> http_method \<Rightarrow> pk \<Rightarrow> pk \<Rightarrow> database \<Rightarrow> error + unit" where
  "RecipeMinifiedSerializer_validate m method recipe user d =
     (if method = POST then
        (if exists_qs (filter (\<lambda>x. row_recipe x = recipe \<and> row_user x = user) (objects m d))
         then Inl (non_field_error AlreadyInCartOrFavorite)
         else Inr ())
      else
        (case objects_get (\<lambda>x. row_recipe x = recipe \<and> row_user x = user) (objects m d) of
           Inl DoesNotExist \<Rightarrow> Inl (non_field_error NotInCartOrFavorite)
         | Inl e \<Rightarrow> Inl e
         | Inr _ \<Rightarrow> Inr ()))"

text \<open>\<^verbatim>\<open>RecipeViewSet.add_obj\<close> and \<^verbatim>\<open>del_obj\<close>.\<close>

definition add_obj :: "model \<Rightarrow> pk \<Rightarrow> pk \<Rightarrow> database \<Rightarrow> (error + unit) \<times> database" where
  "add_obj m recipe user d = model_objects_create m recipe user d"

definition del_obj :: "model \<Rightarrow> pk \<Rightarrow> pk \<Rightarrow> database \<Rightarrow> (error + unit) \<times> database" where
  "del_obj m recipe user d =
     (case objects_get (\<lambda>x. row_recipe x = recipe \<and> row_user x = user) (objects m d) of
        Inl e \<Rightarrow> (Inl e, d)
      | Inr obj \<Rightarrow> (Inr (), with_objects m (filter (\<lambda>x. x \<noteq> obj) (objects m d)) d))"

text \<open>
  \<^verbatim>\<open>RecipeViewSet.serialize_obj\<close>: the recipe of the URL or a 404, then the serializer's
  validation with \<^verbatim>\<open>raise_exception=True\<close>.
\<close>

definition serialize_obj ::
  "model \<Rightarrow> http_method \<Rightarrow> pk \<Rightarrow> pk \<Rightarrow> database \<Rightarrow> error + (Recipe \<times> pk)" where
  "serialize_obj m method recipe_pk user d =
     (case get_object_or_404 (\<lambda>r. recipe_id r = recipe_pk) (recipes d) of
        Inl e \<Rightarrow> Inl e
      | Inr recipe \<Rightarrow>
          (case RecipeMinifiedSerializer_validate m method (recipe_id recipe) user d of
             Inl e \<Rightarrow> Inl e
           | Inr _ \<Rightarrow> Inr (recipe, user)))"

text \<open>
  The actions \<^verbatim>\<open>shopping_cart\<close> and \<^verbatim>\<open>favorite\<close> of RecipeViewSet, for the authenticated
  user \<open>user\<close>. The result is the exception that leaves the action or the status of the
  response it returns, and the database afterwards.
\<close>

definition shopping_cart ::
  "http_method \<Rightarrow> pk \<Rightarrow> pk \<Rightarrow> database \<Rightarrow> (error + nat) \<times> database" where
  "shopping_cart method recipe_pk request_user d =
     (case serialize_obj ShoppingCart method recipe_pk request_user d of
        Inl e \<Rightarrow> (Inl e, d)
      | Inr (recipe, user) \<Rightarrow>
          (if method = POST then
             (case add_obj ShoppingCart (recipe_id recipe) user d of
                (Inl e, d') \<Rightarrow> (Inl e, d')
              | (Inr _, d') \<Rightarrow> (Inr 201, d'))
           else
             (case del_obj ShoppingCart (recipe_id recipe) user d of
                (Inl e, d') \<Rightarrow> (Inl e, d')
              | (Inr _, d') \<Rightarrow> (Inr 204, d'))))"

definition favorite ::
  "http_method \<Rightarrow> pk \<Rightarrow> pk \<Rightarrow> database \<Rightarrow> (error + nat) \<times> database" where
  "favorite method recipe_pk request_user d =
     (case serialize_obj Favorite method recipe_pk request_user d of
        Inl e \<Rightarrow> (Inl e, d)
      | Inr (recipe, user) \<Rightarrow>
          (if method = POST then
             (case add_obj Favorite (recipe_id recipe) user d of
                (Inl e, d') \<Rightarrow> (Inl e, d')
              | (Inr _, d') \<Rightarrow> (Inr 201, d'))
           else
             (case del_obj Favorite (recipe_id recipe) user d of
                (Inl e, d') \<Rightarrow> (Inl e, d')
              | (Inr _, d') \<Rightarrow> (Inr 204, d'))))"

section \<open>Subscription toggle\<close>

text \<open>
  \<^verbatim>\<open>SubscribeSerializer.validate\<close>: \<^verbatim>\<open>self.instance\<close> is the author, the requester the
  follower; two users are equal when their keys are.
\<close>

definition SubscribeSerializer_validate ::
  "http_method \<Rightarrow> pk \<Rightarrow> pk \<Rightarrow> database \<Rightarrow> error + unit" where
  "SubscribeSerializer_validate method author follower d =
     (if method = POST then
        (if exists_qs (filter (\<lambda>s. sub_author s = author \<and> sub_follower s = follower)
                         (subscribes d))
         then Inl (non_field_error AlreadySubscribed)
         else if author = follower then Inl (non_field_error SelfSubscribe)
         else Inr ())
      else
        (case objects_get (\<lambda>s. sub_author s = author \<and> sub_follower s = follower)
                 (subscribes d) of
           Inl DoesNotExist \<Rightarrow> Inl (non_field_error NoSubscription)
         | Inl e \<Rightarrow> Inl e
         | Inr _ \<Rightarrow> Inr ()))"

text \<open>
  The action \<^verbatim>\<open>subscribe\<close> of CustomUserViewSet (permission IsAuthenticated), for the
  authenticated user \<open>follower\<close>.
\<close>

definition subscribe ::
  "http_method \<Rightarrow> pk \<Rightarrow> pk \<Rightarrow> database \<Rightarrow> (error + nat) \<times> database" where
  "subscribe method author_pk follower d =
     (case get_object_or_404 (\<lambda>u. user_id u = author_pk) (users d) of
        Inl e \<Rightarrow> (Inl e, d)
      | Inr author \<Rightarrow>
          (case SubscribeSerializer_validate method (user_id author) follower d of
             Inl e \<Rightarrow> (Inl e, d)
           | Inr _ \<Rightarrow>
               (if method = POST then
                  (case Subscribe_objects_create (user_id author) follower d of
                     (Inl e, d') \<Rightarrow> (Inl e, d')
                   | (Inr _, d') \<Rightarrow> (Inr 201, d'))
                else
                  (case objects_get
                          (\<lambda>s. sub_author s = user_id author \<and> sub_follower s = follower)
                          (subscribes d) of
                     Inl e \<Rightarrow> (Inl e, d)
                   | Inr subscription \<Rightarrow>
                       (Inr 204, d\<lparr>subscribes :=
                          filter (\<lambda>s. s \<noteq> subscription) (subscribes d)\<rparr>)))))"

text \<open>The action of RecipeViewSet that serves a membership class.\<close>

definition action_of ::
  "model \<Rightarrow> http_method \<Rightarrow> pk \<Rightarrow> pk \<Rightarrow> database \<Rightarrow> (error + nat) \<times> database" where
  "action_of m = (case m of Favorite \<Rightarrow> favorite | ShoppingCart \<Rightarrow> shopping_cart)"

section \<open>Shopping-list aggregation\<close>

text \<open>
  The query of \<^verbatim>\<open>RecipeViewSet.generate_shopping_cart\<close>. The filter
  \<^verbatim>\<open>recipe__shopping_cart__user=user\<close> joins each IngredientRecipe row to its recipe and
  to the ShoppingCart rows of that recipe and keeps those of the user; \<^verbatim>\<open>values\<close> joins
  the ingredient and projects its name and unit. The result has one row per match of
  the joins: (name, unit, amount).
\<close>

definition cart_rows :: "database \<Rightarrow> pk \<Rightarrow> (string \<times> string \<times> int) list" where
  "cart_rows d user =
     [(ingredient_name i, measurement_unit i, ir_amount ir).
        ir \<leftarrow> ingredientrecipes d,
        r \<leftarrow> filter (\<lambda>r. recipe_id r = ir_recipe ir) (recipes d),
        sc \<leftarrow> filter (\<lambda>sc. row_recipe sc = recipe_id r \<and> row_user sc = user)
               (shopping_carts d),
        i \<leftarrow> filter (\<lambda>i. ingredient_id i = ir_ingredient ir) (ingredients d)]"

text \<open>
  \<^verbatim>\<open>.values(name, unit).annotate(total_amount=Sum('amount'))\<close> groups the rows by
  (name, unit) and sums the amounts of each group. The order of the groups is the
  database engine's; the model keeps them in the order of their first row.
\<close>

fun add_to_group :: "'k \<Rightarrow> int \<Rightarrow> ('k \<times> int) list \<Rightarrow> ('k \<times> int) list" where
  "add_to_group k a [] = [(k, a)]"
| "add_to_group k a ((k', t) # groups) =
     (if k = k' then (k', t + a) # groups else (k', t) # add_to_group k a groups)"

definition add_row ::
  "((string \<times> string) \<times> int) list \<Rightarrow> string \<times> string \<times> int
     \<Rightarrow> ((string \<times> string) \<times> int) list" where
  "add_row = (\<lambda>groups (name, unit, a). add_to_group (name, unit) a groups)"

definition values_annotate_sum ::
  "(string \<times> string \<times> int) list \<Rightarrow> ((string \<times> string) \<times> int) list" where
  "values_annotate_sum rows = foldl add_row [] rows"

text \<open>Python's \<^verbatim>\<open>sep.join(parts)\<close>.\<close>

fun join :: "string \<Rightarrow> string list \<Rightarrow> string" where
  "join sep [] = []"
| "join sep [x] = x"
| "join sep (x # y # ys) = x @ sep @ join sep (y # ys)"

definition shopping_cart_header :: string where
  "shopping_cart_header =
     [CHR 0xD0, CHR 0xA1, CHR 0xD0, CHR 0xBF, CHR 0xD0, CHR 0xB8, CHR 0xD1, CHR 0x81,
      CHR 0xD0, CHR 0xBE, CHR 0xD0, CHR 0xBA] @ '' '' @
     [CHR 0xD0, CHR 0xBF, CHR 0xD0, CHR 0xBE, CHR 0xD0, CHR 0xBA, CHR 0xD1, CHR 0x83,
      CHR 0xD0, CHR 0xBF, CHR 0xD0, CHR 0xBE, CHR 0xD0, CHR 0xBA] @ '': '' @
     [CHR 0x0A, CHR 0x0A]"

text \<open>One line of the list: the f-string of the comprehension.\<close>

definition shopping_cart_line :: "nat \<times> (string \<times> string) \<times> int \<Rightarrow> string" where
  "shopping_cart_line = (\<lambda>(index, (name, unit), total_amount).
     str_int (int index + 1) @ ''. '' @ name @ '':''
     @ '' '' @ str_int total_amount
     @ '' '' @ unit)"

definition generate_shopping_cart :: "database \<Rightarrow> pk \<Rightarrow> string" where
  "generate_shopping_cart d user =
     (let ingredients_queryset = values_annotate_sum (cart_rows d user)
      in shopping_cart_header
         @ join [CHR 0x0A] (map shopping_cart_line (enumerate 0 ingredients_queryset)))"

text \<open>
  The aggregation as the specification words it, to compare the query with: the recipes
  in the user's shopping cart, and, for a group (name, unit), the amounts of the
  IngredientRecipe rows of those recipes whose ingredient has that name and unit.
\<close>

definition cart_recipes :: "database \<Rightarrow> pk \<Rightarrow> pk set" where
  "cart_recipes d user =
     {recipe_id r | r. r \<in> set (recipes d)
        \<and> \<lparr>row_recipe = recipe_id r, row_user = user\<rparr> \<in> set (shopping_carts d)}"

definition cart_amounts :: "database \<Rightarrow> pk \<Rightarrow> string \<times> string \<Rightarrow> int list" where
  "cart_amounts d user k =
     map ir_amount
       (filter (\<lambda>ir. ir_recipe ir \<in> cart_recipes d user
                  \<and> (\<exists>i. i \<in> set (ingredients d) \<and> ingredient_id i = ir_ingredient ir
                         \<and> (ingredient_name i, measurement_unit i) = k))
          (ingredientrecipes d))"

text \<open>The group and the amount of a row of the query.\<close>

definition row_key :: "string \<times> string \<times> int \<Rightarrow> string \<times> string" where
  "row_key = (\<lambda>(name, unit, a). (name, unit))"

definition row_amount :: "string \<times> string \<times> int \<Rightarrow> int" where
  "row_amount = (\<lambda>(name, unit, a). a)"

section \<open>Bulk reference-data import\<close>

text \<open>
  The management commands \<^verbatim>\<open>load_ingredients\<close> and \<^verbatim>\<open>load_tags\<close>. The JSON file is a
  list of objects. The model covers the objects whose keys are names of the model's columns
  and whose values are strings or \<^verbatim>\<open>null\<close>: each key is absent, \<^verbatim>\<open>null\<close>, or has a string.
  What the command writes to its output is a list of events: the record was added, or it
  was there already and is skipped, and the closing line. An event carries the key the
  line prints, \<open>None\<close> for \<^verbatim>\<open>null\<close>.
\<close>

datatype 'a field = Absent | Null | Value 'a

record ingredient_data =
  data_name :: "string field"
  data_measurement_unit :: "string field"

record tag_data =
  data_tag_name :: "string field"
  data_color :: "string field"
  data_slug :: "string field"

datatype 'k load_event = Added 'k | Skipped 'k | LoadingDone

text \<open>
  \<^verbatim>\<open>data[key]\<close> on the dictionary of a record: the value of the key, \<open>None\<close> for
  \<^verbatim>\<open>null\<close>, and a KeyError when the key is absent.
\<close>

definition getitem :: "string \<Rightarrow> 'a field \<Rightarrow> error + 'a option" where
  "getitem key v =
     (case v of
        Absent \<Rightarrow> Inl (KeyError key)
      | Null \<Rightarrow> Inr None
      | Value x \<Rightarrow> Inr (Some x))"

text \<open>
  \<^verbatim>\<open>Model(**data)\<close>: an attribute takes the value of its keyword, and the default of its
  field when the keyword is absent. The default of a CharField is the empty string, and
  \<open>None\<close> when the field is nullable.
\<close>

definition kwarg :: "'a option \<Rightarrow> 'a field \<Rightarrow> 'a option" where
  "kwarg field_default v =
     (case v of
        Absent \<Rightarrow> field_default
      | Null \<Rightarrow> None
      | Value x \<Rightarrow> Some x)"

text \<open>
  A \<^verbatim>\<open>CharField(max_length=n)\<close> is a column \<^verbatim>\<open>varchar(n)\<close>. The model follows PostgreSQL, as
  it does for the range of an amount: a value of more than \<open>n\<close> characters is refused with
  a DataError, unless the characters in excess are all spaces, which are then cut off.
  \<^verbatim>\<open>NULL\<close> passes. The length counts characters: the bytes of the UTF-8 encoding that are
  not continuation bytes.
\<close>

definition char_length :: "string \<Rightarrow> nat" where
  "char_length s =
     length (filter (\<lambda>c. \<not> (128 \<le> (of_char c :: nat) \<and> (of_char c :: nat) < 192)) s)"

definition varchar :: "nat \<Rightarrow> string option \<Rightarrow> error + string option" where
  "varchar n v =
     (case v of
        None \<Rightarrow> Inr None
      | Some s \<Rightarrow>
          if char_length s \<le> n then Inr (Some s)
          else
            (let excess = char_length s - n in
             if list_all (\<lambda>c. c = CHR '' '') (drop (length s - excess) s)
             then Inr (Some (take (length s - excess) s))
             else Inl DataError))"

text \<open>
  A new row gets the next value of the table's key sequence; the model takes the
  successor of the largest key in the table.
\<close>

definition new_pk :: "pk list \<Rightarrow> pk" where
  "new_pk ids = fold max ids 0 + 1"

text \<open>
  \<^verbatim>\<open>Ingredient.objects.create(**ingredient_data)\<close>: one INSERT. The values are first
  brought to the types of their columns, \<^verbatim>\<open>name\<close> and \<^verbatim>\<open>measurement_unit\<close> both
  \<^verbatim>\<open>varchar(200)\<close>; then the constraints are checked: neither column is nullable, and
  \<^verbatim>\<open>name\<close> is unique. A broken constraint is an IntegrityError.
\<close>

definition Ingredient_objects_create ::
  "ingredient_data \<Rightarrow> database \<Rightarrow> (error + unit) \<times> database" where
  "Ingredient_objects_create x d =
     (case varchar 200 (kwarg (Some []) (data_name x)) of
        Inl e \<Rightarrow> (Inl e, d)
      | Inr name \<Rightarrow>
     (case varchar 200 (kwarg (Some []) (data_measurement_unit x)) of
        Inl e \<Rightarrow> (Inl e, d)
      | Inr unit \<Rightarrow>
     (case (name, unit) of
        (Some n, Some u) \<Rightarrow>
          if exists_qs (filter (\<lambda>i. ingredient_name i = n) (ingredients d))
          then (Inl IntegrityError, d)
          else (Inr (), d\<lparr>ingredients := ingredients d @
                  [\<lparr>ingredient_id = new_pk (map ingredient_id (ingredients d)),
                    ingredient_name = n, measurement_unit = u\<rparr>]\<rparr>)
      | _ \<Rightarrow> (Inl IntegrityError, d))))"

text \<open>
  \<^verbatim>\<open>Tag.objects.create(**tag_data)\<close>: \<^verbatim>\<open>name\<close> is \<^verbatim>\<open>varchar(200)\<close> and not nullable,
  \<^verbatim>\<open>color\<close> is \<^verbatim>\<open>varchar(7)\<close> and nullable, \<^verbatim>\<open>slug\<close> is \<^verbatim>\<open>varchar(200)\<close>, nullable and
  unique; as in SQL, two rows without a slug do not collide.
\<close>

definition Tag_objects_create :: "tag_data \<Rightarrow> database \<Rightarrow> (error + unit) \<times> database" where
  "Tag_objects_create x d =
     (case varchar 200 (kwarg (Some []) (data_tag_name x)) of
        Inl e \<Rightarrow> (Inl e, d)
      | Inr name \<Rightarrow>
     (case varchar 7 (kwarg None (data_color x)) of
        Inl e \<Rightarrow> (Inl e, d)
      | Inr color' \<Rightarrow>
     (case varchar 200 (kwarg None (data_slug x)) of
        Inl e \<Rightarrow> (Inl e, d)
      | Inr slug' \<Rightarrow>
     (case name of
        None \<Rightarrow> (Inl IntegrityError, d)
      | Some n \<Rightarrow>
          if slug' \<noteq> None \<and> exists_qs (filter (\<lambda>t. slug t = slug') (tags d))
          then (Inl IntegrityError, d)
          else (Inr (), d\<lparr>tags := tags d @
                  [\<lparr>tag_id = new_pk (map tag_id (tags d)), tag_name = n,
                    color = color', slug = slug'\<rparr>]\<rparr>)))))"

text \<open>
  The loop of \<^verbatim>\<open>load_ingredients.Command.handle\<close> over the records of the file. The
  command runs outside a transaction: an exception ends it and keeps what was written.
  \<^verbatim>\<open>filter(name=None)\<close> asks for the rows without a name, and there are none.
\<close>

fun load_ingredients_loop ::
  "ingredient_data list \<Rightarrow> database \<times> string option load_event list
     \<Rightarrow> (error + unit) \<times> database \<times> string option load_event list" where
  "load_ingredients_loop [] (d, out) = (Inr (), d, out)"
| "load_ingredients_loop (ingredient_data # rest) (d, out) =
     (case getitem ''name'' (data_name ingredient_data) of
        Inl e \<Rightarrow> (Inl e, d, out)
      | Inr name \<Rightarrow>
          if \<not> exists_qs (filter (\<lambda>i. Some (ingredient_name i) = name) (ingredients d)) then
            (case Ingredient_objects_create ingredient_data d of
               (Inl e, d') \<Rightarrow> (Inl e, d', out)
             | (Inr _, d') \<Rightarrow> load_ingredients_loop rest (d', out @ [Added name]))
          else load_ingredients_loop rest (d, out @ [Skipped name]))"

definition load_ingredients ::
  "ingredient_data list \<Rightarrow> database
     \<Rightarrow> (error + unit) \<times> database \<times> string option load_event list"
  where
  "load_ingredients ingredients_data d =
     (case load_ingredients_loop ingredients_data (d, []) of
        (Inl e, d', out) \<Rightarrow> (Inl e, d', out)
      | (Inr _, d', out) \<Rightarrow> (Inr (), d', out @ [LoadingDone]))"

text \<open>
  The loop of \<^verbatim>\<open>load_tags.Command.handle\<close>: the record is looked up by its slug
  (\<^verbatim>\<open>filter(slug=None)\<close> finds the rows without a slug).
\<close>

fun load_tags_loop ::
  "tag_data list \<Rightarrow> database \<times> string option load_event list
     \<Rightarrow> (error + unit) \<times> database \<times> string option load_event list" where
  "load_tags_loop [] (d, out) = (Inr (), d, out)"
| "load_tags_loop (tag_data # rest) (d, out) =
     (case getitem ''slug'' (data_slug tag_data) of
        Inl e \<Rightarrow> (Inl e, d, out)
      | Inr slug' \<Rightarrow>
          if \<not> exists_qs (filter (\<lambda>t. slug t = slug') (tags d)) then
            (case Tag_objects_create tag_data d of
               (Inl e, d') \<Rightarrow> (Inl e, d', out)
             | (Inr _, d') \<Rightarrow> load_tags_loop rest (d', out @ [Added slug']))
          else load_tags_loop rest (d, out @ [Skipped slug']))"

definition load_tags ::
  "tag_data list \<Rightarrow> database \<Rightarrow> (error + unit) \<times> database \<times> string option load_event list"
  where
  "load_tags tags_data d =
     (case load_tags_loop tags_data (d, []) of
        (Inl e, d', out) \<Rightarrow> (Inl e, d', out)
      | (Inr _, d', out) \<Rightarrow> (Inr (), d', out @ [LoadingDone]))"



fun added_keys :: "'k load_event list \<Rightarrow> 'k list" where
  "added_keys [] = []"
| "added_keys (Added k # events) = k # added_keys events"
| "added_keys (_ # events) = added_keys events"

section \<open>Recipe payload and its validation\<close>

text \<open>
  The body of a recipe write request. A key of the JSON object is absent, \<^verbatim>\<open>null\<close>, or
  has a value; an ingredient entry is \<^verbatim>\<open>{id, amount}\<close> with two integers. The image
  field decodes its base64 text into a file or finds it undecodable; the model takes
  the outcome of the decoding as given.
\<close>

datatype base64_image = Undecodable | Decoded string

record recipe_payload =
  p_tags :: "pk list field"
  p_ingredients :: "(pk \<times> int) list field"
  p_name :: "string field"
  p_image :: "base64_image field"
  p_text :: "string field"
  p_cooking_time :: "int field"

text \<open>
  What \<^verbatim>\<open>Serializer.to_internal_value\<close> gets from one field: the field is skipped (a
  partial update without the key), it has errors, or it has a validated value.
\<close>

datatype 'a outcome = SkipField | Invalid "error_detail list" | Valid 'a

text \<open>
  \<^verbatim>\<open>Field.run_validation\<close> of a required field that does not allow \<^verbatim>\<open>null\<close> (all six
  writable fields of RecipeSerializer are such), and the \<^verbatim>\<open>validate_<field>\<close> method
  of the serializer that runs on the value of the field when there is one.
\<close>

definition run_validation ::
  "bool \<Rightarrow> 'a field \<Rightarrow> ('a \<Rightarrow> error_detail list + 'b) \<Rightarrow> 'b outcome" where
  "run_validation partial data to_internal_value =
     (case data of
        Absent \<Rightarrow> if partial then SkipField else Invalid [Code required]
      | Null \<Rightarrow> Invalid [Code null]
      | Value v \<Rightarrow>
          (case to_internal_value v of Inl errors \<Rightarrow> Invalid errors | Inr x \<Rightarrow> Valid x))"

definition validate_method :: "'a outcome \<Rightarrow> ('a \<Rightarrow> message + 'b) \<Rightarrow> 'b outcome" where
  "validate_method validated validate =
     (case validated of
        SkipField \<Rightarrow> SkipField
      | Invalid errors \<Rightarrow> Invalid errors
      | Valid v \<Rightarrow> (case validate v of Inl m \<Rightarrow> Invalid [Raised m] | Inr x \<Rightarrow> Valid x))"

text \<open>
  \<^verbatim>\<open>tags = PrimaryKeyRelatedField(queryset=Tag.objects.all(), many=True)\<close>: each key is
  resolved to its Tag, and the first key without one fails the field. A key identifies
  at most one row of its table; the lookup takes the first.
\<close>

fun tags_to_internal_value :: "database \<Rightarrow> pk list \<Rightarrow> error_detail list + Tag list" where
  "tags_to_internal_value d [] = Inr []"
| "tags_to_internal_value d (k # ks) =
     (case find (\<lambda>t. tag_id t = k) (tags d) of
        None \<Rightarrow> Inl [Code (does_not_exist k)]
      | Some t \<Rightarrow>
          (case tags_to_internal_value d ks of
             Inl errors \<Rightarrow> Inl errors
           | Inr ts \<Rightarrow> Inr (t # ts)))"

text \<open>
  \<^verbatim>\<open>ingredients = IngredientRecipeSerializer(many=True)\<close>. The child serializer
  validates \<^verbatim>\<open>id\<close> (a PrimaryKeyRelatedField on Ingredient) and \<^verbatim>\<open>amount\<close> (an
  IntegerField with MinValueValidator(1)) and reports the errors of both; the list
  serializer validates every entry and fails if one of them failed.
\<close>

definition IngredientRecipeSerializer_run_validation ::
  "database \<Rightarrow> pk \<times> int \<Rightarrow> error_detail list + (Ingredient \<times> int)" where
  "IngredientRecipeSerializer_run_validation d = (\<lambda>(k, a).
     (case find (\<lambda>i. ingredient_id i = k) (ingredients d) of
        None \<Rightarrow> Inl (Code (does_not_exist k) # (if a < 1 then [Code min_value] else []))
      | Some i \<Rightarrow> if a < 1 then Inl [Code min_value] else Inr (i, a)))"

fun ListSerializer_collect :: "('e list + 'a) list \<Rightarrow> 'e list + 'a list" where
  "ListSerializer_collect [] = Inr []"
| "ListSerializer_collect (r # rs) =
     (case (r, ListSerializer_collect rs) of
        (Inr x, Inr xs) \<Rightarrow> Inr (x # xs)
      | (Inr x, Inl errors) \<Rightarrow> Inl errors
      | (Inl e, Inr xs) \<Rightarrow> Inl e
      | (Inl e, Inl errors) \<Rightarrow> Inl (e @ errors))"

definition ingredients_to_internal_value ::
  "database \<Rightarrow> (pk \<times> int) list \<Rightarrow> error_detail list + (Ingredient \<times> int) list" where
  "ingredients_to_internal_value d items =
     ListSerializer_collect (map (IngredientRecipeSerializer_run_validation d) items)"

text \<open>
  \<^verbatim>\<open>RecipeSerializer.validate_tags\<close>. \<^verbatim>\<open>existing_datas\<close> is a set of Tag objects; two
  model objects are equal, and hash alike, when their keys are, so the set is kept as
  the set of the keys. The message of a duplicate formats the tag, that is, its name.
\<close>

fun validate_tags_loop :: "Tag list \<Rightarrow> pk set \<Rightarrow> message + unit" where
  "validate_tags_loop [] existing_datas = Inr ()"
| "validate_tags_loop (field_data # tags_data) existing_datas =
     (if tag_id field_data \<in> existing_datas then Inl (TagDuplicated (tag_name field_data))
      else validate_tags_loop tags_data (insert (tag_id field_data) existing_datas))"

definition validate_tags :: "Tag list \<Rightarrow> message + Tag list" where
  "validate_tags v =
     (if v = [] then Inl TagsEmpty
      else (case validate_tags_loop v {} of Inl m \<Rightarrow> Inl m | Inr _ \<Rightarrow> Inr v))"

text \<open>\<^verbatim>\<open>validate_image\<close> and \<^verbatim>\<open>validate_cooking_time\<close>.\<close>

definition validate_image :: "string option \<Rightarrow> message + string" where
  "validate_image v = (case v of None \<Rightarrow> Inl ImageEmpty | Some file \<Rightarrow> Inr file)"

definition MIN_COOKING_TIME :: int where
  "MIN_COOKING_TIME = 1"

definition validate_cooking_time :: "int \<Rightarrow> message + int" where
  "validate_cooking_time v = (if v < MIN_COOKING_TIME then Inl CookingTimeLess else Inr v)"

text \<open>
  \<^verbatim>\<open>RecipeSerializer.validate_ingredients\<close>: the loop over the validated entries, with
  the set of the ids seen and the list built so far. \<^verbatim>\<open>Ingredient.objects.get(id=...)\<close>
  raising DoesNotExist is the lookup finding no row.
\<close>

fun validate_ingredients_loop ::
  "database \<Rightarrow> (Ingredient \<times> int) list \<Rightarrow> pk set \<Rightarrow> (Ingredient \<times> int) list
     \<Rightarrow> message + (Ingredient \<times> int) list" where
  "validate_ingredients_loop d [] existing_ingredients_id ingredient_list = Inr ingredient_list"
| "validate_ingredients_loop d ((obj, amount) # ingredients_data) existing_ingredients_id
       ingredient_list =
     (case find (\<lambda>i. ingredient_id i = ingredient_id obj) (ingredients d) of
        None \<Rightarrow> Inl (IngredientNonexistent (ingredient_id obj))
      | Some ingredient \<Rightarrow>
          if ingredient_id obj \<in> existing_ingredients_id
          then Inl (IngredientDuplicated (ingredient_id obj))
          else if amount < 1 then Inl AmountLess
          else validate_ingredients_loop d ingredients_data
                 (insert (ingredient_id obj) existing_ingredients_id)
                 (ingredient_list @ [(ingredient, amount)]))"

definition validate_ingredients ::
  "database \<Rightarrow> (Ingredient \<times> int) list \<Rightarrow> message + (Ingredient \<times> int) list" where
  "validate_ingredients d v =
     (if v = [] then Inl IngredientsEmpty else validate_ingredients_loop d v {} [])"

text \<open>
  The fields without a method of the serializer. \<^verbatim>\<open>name\<close> carries the uniqueness
  validator that a ModelSerializer derives from \<^verbatim>\<open>unique=True\<close>; on an update it leaves
  the instance itself out. \<^verbatim>\<open>image\<close> is the decoded file. The length limits and the
  integer ranges that the framework derives from the column types are not modelled.
\<close>

definition name_to_internal_value ::
  "database \<Rightarrow> pk option \<Rightarrow> string \<Rightarrow> error_detail list + string" where
  "name_to_internal_value d instance v =
     (if exists_qs (filter (\<lambda>r. recipe_name r = v \<and> Some (recipe_id r) \<noteq> instance) (recipes d))
      then Inl [Code unique] else Inr v)"

definition image_to_internal_value :: "base64_image \<Rightarrow> error_detail list + string option" where
  "image_to_internal_value v =
     (case v of Undecodable \<Rightarrow> Inl [Code invalid_image] | Decoded file \<Rightarrow> Inr (Some file))"

text \<open>
  The validated data: the value of every field that was not skipped, under the field's
  source (\<^verbatim>\<open>ingredientrecipe_set\<close> for \<^verbatim>\<open>ingredients\<close>).
\<close>

record validated_data =
  vd_tags :: "Tag list option"
  vd_ingredientrecipe_set :: "(Ingredient \<times> int) list option"
  vd_name :: "string option"
  vd_image :: "string option"
  vd_text :: "string option"
  vd_cooking_time :: "int option"

definition errors_of :: "string \<Rightarrow> 'a outcome \<Rightarrow> (string \<times> error_detail list) list" where
  "errors_of field_name validated =
     (case validated of Invalid errors \<Rightarrow> [(field_name, errors)] | _ \<Rightarrow> [])"

definition value_of :: "'a outcome \<Rightarrow> 'a option" where
  "value_of validated = (case validated of Valid v \<Rightarrow> Some v | _ \<Rightarrow> None)"

text \<open>
  \<^verbatim>\<open>serializer.is_valid(raise_exception=True)\<close> of RecipeSerializer: every writable
  field, in the order of \<^verbatim>\<open>Meta.fields\<close>, is validated and its errors are collected; the
  ValidationError is raised at the end if there is any. \<open>instance\<close> is the key of the
  recipe being updated, \<open>None\<close> for a creation.
\<close>

definition RecipeSerializer_is_valid ::
  "bool \<Rightarrow> pk option \<Rightarrow> recipe_payload \<Rightarrow> database \<Rightarrow> error + validated_data" where
  "RecipeSerializer_is_valid partial instance p d =
     (let tags' = validate_method
                    (run_validation partial (p_tags p) (tags_to_internal_value d))
                    validate_tags;
          ingredients' = validate_method
                    (run_validation partial (p_ingredients p) (ingredients_to_internal_value d))
                    (validate_ingredients d);
          name = run_validation partial (p_name p) (name_to_internal_value d instance);
          image = validate_method
                    (run_validation partial (p_image p) image_to_internal_value)
                    validate_image;
          text = run_validation partial (p_text p) Inr;
          cooking_time' = validate_method
                    (run_validation partial (p_cooking_time p) Inr)
                    validate_cooking_time;
          errors = errors_of ''tags'' tags' @ errors_of ''ingredients'' ingredients'
                   @ errors_of ''name'' name @ errors_of ''image'' image
                   @ errors_of ''text'' text @ errors_of ''cooking_time'' cooking_time'
      in if errors \<noteq> [] then Inl (ValidationError errors)
         else Inr \<lparr>vd_tags = value_of tags', vd_ingredientrecipe_set = value_of ingredients',
                   vd_name = value_of name, vd_image = value_of image,
                   vd_text = value_of text, vd_cooking_time = value_of cooking_time'\<rparr>)"

section \<open>Recipe creation and update\<close>

text \<open>
  The writes of the storage layer that the serializer uses. Each takes the database
  and returns the outcome and the database as the write left it, also when it raised:
  within a transaction the earlier writes of the block are there until it is rolled
  back.

  \<^verbatim>\<open>Recipe.objects.create(author=author_data, **validated_data)\<close>: assigning the
  anonymous user to the foreign key raises ValueError before anything is written; a
  missing \<^verbatim>\<open>cooking_time\<close> breaks NOT NULL and a name already in the table breaks
  \<^verbatim>\<open>unique=True\<close>; the character columns default to the empty string.
\<close>

definition Recipe_objects_create ::
  "request_user \<Rightarrow> validated_data \<Rightarrow> database \<Rightarrow> (error + Recipe) \<times> database" where
  "Recipe_objects_create author_data vd d =
     (case author_data of
        AnonymousUser \<Rightarrow> (Inl ValueError, d)
      | AuthUser u \<Rightarrow>
          (case vd_cooking_time vd of
             None \<Rightarrow> (Inl IntegrityError, d)
           | Some t \<Rightarrow>
               (let recipe = \<lparr>recipe_id = new_pk (map recipe_id (recipes d)),
                               recipe_image = (case vd_image vd of Some f \<Rightarrow> f | None \<Rightarrow> []),
                               recipe_name = (case vd_name vd of Some n \<Rightarrow> n | None \<Rightarrow> []),
                               recipe_text = (case vd_text vd of Some x \<Rightarrow> x | None \<Rightarrow> []),
                               cooking_time = t, recipe_author = Some u\<rparr>
                in if exists_qs (filter (\<lambda>r. recipe_name r = recipe_name recipe) (recipes d))
                   then (Inl IntegrityError, d)
                   else (Inr recipe, d\<lparr>recipes := recipes d @ [recipe]\<rparr>))))"

text \<open>
  \<^verbatim>\<open>ModelSerializer.update(instance, validated_data)\<close>: the attributes that the
  validated data has are set on the instance, and the instance is saved.
\<close>

definition ModelSerializer_update ::
  "Recipe \<Rightarrow> validated_data \<Rightarrow> database \<Rightarrow> (error + Recipe) \<times> database" where
  "ModelSerializer_update instance vd d =
     (let updated = instance
            \<lparr>recipe_image := (case vd_image vd of Some f \<Rightarrow> f | None \<Rightarrow> recipe_image instance),
             recipe_name := (case vd_name vd of Some n \<Rightarrow> n | None \<Rightarrow> recipe_name instance),
             recipe_text := (case vd_text vd of Some x \<Rightarrow> x | None \<Rightarrow> recipe_text instance),
             cooking_time :=
               (case vd_cooking_time vd of Some t \<Rightarrow> t | None \<Rightarrow> cooking_time instance)\<rparr>
      in if exists_qs (filter (\<lambda>r. recipe_name r = recipe_name updated
                                   \<and> recipe_id r \<noteq> recipe_id instance) (recipes d))
         then (Inl IntegrityError, d)
         else (Inr updated,
               d\<lparr>recipes := map (\<lambda>r. if recipe_id r = recipe_id instance then updated else r)
                               (recipes d)\<rparr>))"

text \<open>
  The tag relation of a recipe, a table of (recipe, tag) pairs without repetition.
  \<^verbatim>\<open>recipe.tags.clear()\<close> deletes the pairs of the recipe; \<^verbatim>\<open>recipe.tags.set(objs)\<close>
  deletes the pairs whose tag is not among \<open>objs\<close> and adds a pair for each of \<open>objs\<close>
  that has none.
\<close>

definition tags_clear :: "pk \<Rightarrow> database \<Rightarrow> database" where
  "tags_clear recipe d = d\<lparr>recipe_tags := filter (\<lambda>(r, t). r \<noteq> recipe) (recipe_tags d)\<rparr>"

definition tags_set :: "pk \<Rightarrow> Tag list \<Rightarrow> database \<Rightarrow> database" where
  "tags_set recipe objs d =
     (let new_ids = map tag_id objs;
          old_ids = map snd (filter (\<lambda>(r, t). r = recipe) (recipe_tags d));
          kept = filter (\<lambda>(r, t). r \<noteq> recipe \<or> t \<in> set new_ids) (recipe_tags d);
          added = map (\<lambda>t. (recipe, t)) (filter (\<lambda>t. t \<notin> set old_ids) (remdups new_ids))
      in d\<lparr>recipe_tags := kept @ added\<rparr>)"

text \<open>
  \<^verbatim>\<open>recipe.ingredients.clear()\<close> deletes the IngredientRecipe rows of the recipe.
  \<^verbatim>\<open>IngredientRecipe.objects.bulk_create(rows)\<close> inserts the rows in order; a row is
  refused with an IntegrityError when it would break \<^verbatim>\<open>unique_ingredientrecipe\<close> on
  (recipe, ingredient), and with a DataError when its amount is outside the range of
  the column, a PositiveSmallIntegerField (0 to 32767).
\<close>

definition ingredients_clear :: "pk \<Rightarrow> database \<Rightarrow> database" where
  "ingredients_clear recipe d =
     d\<lparr>ingredientrecipes := filter (\<lambda>ir. ir_recipe ir \<noteq> recipe) (ingredientrecipes d)\<rparr>"

fun bulk_create :: "IngredientRecipe list \<Rightarrow> database \<Rightarrow> (error + unit) \<times> database" where
  "bulk_create [] d = (Inr (), d)"
| "bulk_create (x # xs) d =
     (if ir_amount x < 0 \<or> 32767 < ir_amount x then (Inl DataError, d)
      else if exists_qs (filter (\<lambda>ir. ir_recipe ir = ir_recipe x
                                      \<and> ir_ingredient ir = ir_ingredient x)
                           (ingredientrecipes d))
      then (Inl IntegrityError, d)
      else bulk_create xs (d\<lparr>ingredientrecipes := ingredientrecipes d @ [x]\<rparr>))"

text \<open>\<^verbatim>\<open>RecipeSerializer.ingredient_recipe_list\<close>.\<close>

definition ingredient_recipe_list ::
  "(Ingredient \<times> int) list \<Rightarrow> pk \<Rightarrow> database \<Rightarrow> (error + unit) \<times> database" where
  "ingredient_recipe_list ingredients_data recipe d =
     bulk_create
       (map (\<lambda>(ingredient, amount).
               \<lparr>ir_recipe = recipe, ir_ingredient = ingredient_id ingredient,
                ir_amount = amount\<rparr>)
          ingredients_data)
       d"

text \<open>
  The decorator \<^verbatim>\<open>@transaction.atomic\<close>: if the block raises, the database is the one
  before the block; the exception goes on to the caller.
\<close>

definition transaction_atomic ::
  "(database \<Rightarrow> (error + 'a) \<times> database) \<Rightarrow> database \<Rightarrow> (error + 'a) \<times> database" where
  "transaction_atomic block d =
     (case block d of
        (Inl e, _) \<Rightarrow> (Inl e, d)
      | (Inr x, d') \<Rightarrow> (Inr x, d'))"

text \<open>
  The body of \<^verbatim>\<open>RecipeSerializer.create\<close>; \<^verbatim>\<open>pop\<close> of a key that the validated data
  does not have raises KeyError.
\<close>

definition create_body ::
  "request_user \<Rightarrow> validated_data \<Rightarrow> database \<Rightarrow> (error + Recipe) \<times> database" where
  "create_body author_data vd d =
     (case vd_tags vd of
        None \<Rightarrow> (Inl (KeyError ''tags''), d)
      | Some tags_data \<Rightarrow>
          (case vd_ingredientrecipe_set vd of
             None \<Rightarrow> (Inl (KeyError ''ingredientrecipe_set''), d)
           | Some ingredients_data \<Rightarrow>
               (case Recipe_objects_create author_data vd d of
                  (Inl e, d1) \<Rightarrow> (Inl e, d1)
                | (Inr recipe, d1) \<Rightarrow>
                    (let d2 = tags_set (recipe_id recipe) tags_data d1
                     in case ingredient_recipe_list ingredients_data (recipe_id recipe) d2 of
                          (Inl e, d3) \<Rightarrow> (Inl e, d3)
                        | (Inr _, d3) \<Rightarrow> (Inr recipe, d3)))))"

definition RecipeSerializer_create ::
  "request_user \<Rightarrow> validated_data \<Rightarrow> database \<Rightarrow> (error + Recipe) \<times> database" where
  "RecipeSerializer_create author_data vd = transaction_atomic (create_body author_data vd)"

text \<open>The body of \<^verbatim>\<open>RecipeSerializer.update\<close>.\<close>

definition update_body ::
  "Recipe \<Rightarrow> validated_data \<Rightarrow> database \<Rightarrow> (error + Recipe) \<times> database" where
  "update_body instance vd d =
     (case vd_tags vd of
        None \<Rightarrow> (Inl (KeyError ''tags''), d)
      | Some tags_data \<Rightarrow>
          (case vd_ingredientrecipe_set vd of
             None \<Rightarrow> (Inl (KeyError ''ingredientrecipe_set''), d)
           | Some ingredients_data \<Rightarrow>
               (case ModelSerializer_update instance vd d of
                  (Inl e, d1) \<Rightarrow> (Inl e, d1)
                | (Inr updated_recipe, d1) \<Rightarrow>
                    (let d2 = tags_clear (recipe_id updated_recipe) d1;
                         d3 = tags_set (recipe_id updated_recipe) tags_data d2;
                         d4 = ingredients_clear (recipe_id updated_recipe) d3
                     in case ingredient_recipe_list ingredients_data (recipe_id instance) d4 of
                          (Inl e, d5) \<Rightarrow> (Inl e, d5)
                        | (Inr _, d5) \<Rightarrow> (Inr updated_recipe, d5)))))"

definition RecipeSerializer_update ::
  "Recipe \<Rightarrow> validated_data \<Rightarrow> database \<Rightarrow> (error + Recipe) \<times> database" where
  "RecipeSerializer_update instance vd = transaction_atomic (update_body instance vd)"

text \<open>
  The actions \<^verbatim>\<open>create\<close>, \<^verbatim>\<open>update\<close> (\<^verbatim>\<open>partial_update\<close> when \<open>partial\<close>) and \<^verbatim>\<open>destroy\<close>
  that RecipeViewSet inherits from ModelViewSet, past the permission check: validate,
  then save. Deleting a recipe deletes the rows that point to it
  (\<^verbatim>\<open>on_delete=models.CASCADE\<close>).
\<close>

definition RecipeViewSet_create ::
  "request_user \<Rightarrow> recipe_payload \<Rightarrow> database \<Rightarrow> (error + nat) \<times> database" where
  "RecipeViewSet_create user p d =
     (case RecipeSerializer_is_valid False None p d of
        Inl e \<Rightarrow> (Inl e, d)
      | Inr vd \<Rightarrow>
          (case RecipeSerializer_create user vd d of
             (Inl e, d') \<Rightarrow> (Inl e, d')
           | (Inr _, d') \<Rightarrow> (Inr 201, d')))"

definition RecipeViewSet_update ::
  "bool \<Rightarrow> pk \<Rightarrow> recipe_payload \<Rightarrow> database \<Rightarrow> (error + nat) \<times> database" where
  "RecipeViewSet_update partial recipe_pk p d =
     (case get_object_or_404 (\<lambda>r. recipe_id r = recipe_pk) (recipes d) of
        Inl e \<Rightarrow> (Inl e, d)
      | Inr instance \<Rightarrow>
          (case RecipeSerializer_is_valid partial (Some (recipe_id instance)) p d of
             Inl e \<Rightarrow> (Inl e, d)
           | Inr vd \<Rightarrow>
               (case RecipeSerializer_update instance vd d of
                  (Inl e, d') \<Rightarrow> (Inl e, d')
                | (Inr _, d') \<Rightarrow> (Inr 200, d'))))"

definition RecipeViewSet_destroy :: "pk \<Rightarrow> database \<Rightarrow> (error + nat) \<times> database" where
  "RecipeViewSet_destroy recipe_pk d =
     (case get_object_or_404 (\<lambda>r. recipe_id r = recipe_pk) (recipes d) of
        Inl e \<Rightarrow> (Inl e, d)
      | Inr instance \<Rightarrow>
          (Inr 204,
           d\<lparr>recipes := filter (\<lambda>r. recipe_id r \<noteq> recipe_id instance) (recipes d),
             recipe_tags := filter (\<lambda>(r, t). r \<noteq> recipe_id instance) (recipe_tags d),
             ingredientrecipes :=
               filter (\<lambda>ir. ir_recipe ir \<noteq> recipe_id instance) (ingredientrecipes d),
             favorites := filter (\<lambda>x. row_recipe x \<noteq> recipe_id instance) (favorites d),
             shopping_carts :=
               filter (\<lambda>x. row_recipe x \<noteq> recipe_id instance) (shopping_carts d)\<rparr>))"

section \<open>Operations and reachable states\<close>

text \<open>
  The write operations of the application: the actions of the view sets and the two
  management commands, each with its arguments. \<open>perform\<close> is the database an operation
  leaves, whatever it answers.
\<close>

datatype operation =
    CreateRecipe request_user recipe_payload
  | UpdateRecipe bool pk recipe_payload
  | DestroyRecipe pk
  | FavoriteAction http_method pk pk
  | ShoppingCartAction http_method pk pk
  | SubscribeAction http_method pk pk
  | LoadIngredients "ingredient_data list"
  | LoadTags "tag_data list"

fun perform :: "operation \<Rightarrow> database \<Rightarrow> database" where
  "perform (CreateRecipe user p) d = snd (RecipeViewSet_create user p d)"
| "perform (UpdateRecipe partial recipe_pk p) d = snd (RecipeViewSet_update partial recipe_pk p d)"
| "perform (DestroyRecipe recipe_pk) d = snd (RecipeViewSet_destroy recipe_pk d)"
| "perform (FavoriteAction method recipe_pk user) d = snd (favorite method recipe_pk user d)"
| "perform (ShoppingCartAction method recipe_pk user) d =
     snd (shopping_cart method recipe_pk user d)"
| "perform (SubscribeAction method author_pk follower) d =
     snd (subscribe method author_pk follower d)"
| "perform (LoadIngredients ingredients_data) d = fst (snd (load_ingredients ingredients_data d))"
| "perform (LoadTags tags_data) d = fst (snd (load_tags tags_data d))"

text \<open>
  A reachable state: a database without recipes, join rows and membership rows (its
  users, tags and ingredients are arbitrary), or the state an operation leaves from a
  reachable state.
\<close>

inductive reachable :: "database \<Rightarrow> bool" where
  initial:
    "recipes d = [] \<Longrightarrow> recipe_tags d = [] \<Longrightarrow> ingredientrecipes d = [] \<Longrightarrow> favorites d = []
       \<Longrightarrow> subscribes d = [] \<Longrightarrow> shopping_carts d = [] \<Longrightarrow> reachable d"
| step: "reachable d \<Longrightarrow> reachable (perform operation d)"

text \<open>
  The UniqueConstraints of \<^verbatim>\<open>api/models.py\<close>: \<^verbatim>\<open>unique_ingredientrecipe\<close> on (recipe,
  ingredient), \<^verbatim>\<open>unique_favorite\<close> and \<^verbatim>\<open>unique_shoping_cart\<close> on (recipe, user),
  \<^verbatim>\<open>unique_subscribe\<close> on (author, follower). A membership row is its pair, so a table
  without repeated rows has no two rows with the same pair.
\<close>

definition unique_rows :: "database \<Rightarrow> bool" where
  "unique_rows d \<longleftrightarrow>
     distinct (map (\<lambda>ir. (ir_recipe ir, ir_ingredient ir)) (ingredientrecipes d))
     \<and> distinct (favorites d) \<and> distinct (shopping_carts d) \<and> distinct (subscribes d)"

section \<open>Example data\<close>

text \<open>
  A small database for the concrete instances below: two users, two tags, the
  ingredients Salt and Pepper, recipe 1 with Salt 2 and Pepper 1, recipe 2 with Salt 3.
  User 2 follows user 1, has recipe 1 among the favorites and both recipes in the
  shopping cart.
\<close>

definition example_users :: "CustomUser list" where
  "example_users =
     [\<lparr>user_id = 1, email = ''a@example.org'', username = ''alice'', first_name = ''Alice'',
       last_name = ''A'', is_subscribed = False\<rparr>,
      \<lparr>user_id = 2, email = ''b@example.org'', username = ''bob'', first_name = ''Bob'',
       last_name = ''B'', is_subscribed = False\<rparr>]"

definition example_recipes :: "Recipe list" where
  "example_recipes =
     [\<lparr>recipe_id = 1, recipe_image = ''media/a.png'', recipe_name = ''A'',
       recipe_text = ''first'', cooking_time = 10, recipe_author = Some 1\<rparr>,
      \<lparr>recipe_id = 2, recipe_image = ''media/b.png'', recipe_name = ''B'',
       recipe_text = ''second'', cooking_time = 5, recipe_author = Some 1\<rparr>]"

definition example_db :: database where
  "example_db =
     \<lparr>users = example_users,
      tags = [\<lparr>tag_id = 1, tag_name = ''Breakfast'', color = Some ''#E26C2D'',
               slug = Some ''breakfast''\<rparr>,
              \<lparr>tag_id = 2, tag_name = ''Lunch'', color = None, slug = Some ''lunch''\<rparr>],
      ingredients = [\<lparr>ingredient_id = 1, ingredient_name = ''Salt'', measurement_unit = ''g''\<rparr>,
                     \<lparr>ingredient_id = 2, ingredient_name = ''Pepper'',
                      measurement_unit = ''g''\<rparr>],
      recipes = example_recipes,
      recipe_tags = [(1, 1), (2, 2)],
      ingredientrecipes = [\<lparr>ir_recipe = 1, ir_ingredient = 1, ir_amount = 2\<rparr>,
                           \<lparr>ir_recipe = 1, ir_ingredient = 2, ir_amount = 1\<rparr>,
                           \<lparr>ir_recipe = 2, ir_ingredient = 1, ir_amount = 3\<rparr>],
      favorites = [\<lparr>row_recipe = 1, row_user = 2\<rparr>],
      subscribes = [\<lparr>sub_author = 1, sub_follower = 2\<rparr>],
      shopping_carts = [\<lparr>row_recipe = 1, row_user = 2\<rparr>, \<lparr>row_recipe = 2, row_user = 2\<rparr>]\<rparr>"





definition example_payload :: recipe_payload where
  "example_payload =
     \<lparr>p_tags = Value [1, 2], p_ingredients = Value [(1, 10), (2, 5)], p_name = Value ''C'',
      p_image = Value (Decoded ''media/c.png''), p_text = Value ''third'',
      p_cooking_time = Value 15\<rparr>"

definition example_bad_payload :: recipe_payload where
  "example_bad_payload =
     example_payload\<lparr>p_tags := Value [1, 1], p_ingredients := Value [(1, 0), (7, 3), (1, 2)]\<rparr>"

definition example_large_payload :: recipe_payload where
  "example_large_payload = example_payload\<lparr>p_ingredients := Value [(1, 3), (2, 40000)]\<rparr>"

definition example_validated_data :: validated_data where
  "example_validated_data =
     \<lparr>vd_tags = Some [\<lparr>tag_id = 1, tag_name = ''Breakfast'', color = Some ''#E26C2D'',
                        slug = Some ''breakfast''\<rparr>],
      vd_ingredientrecipe_set =
        Some [(\<lparr>ingredient_id = 1, ingredient_name = ''Salt'', measurement_unit = ''g''\<rparr>, 3),
              (\<lparr>ingredient_id = 2, ingredient_name = ''Pepper'', measurement_unit = ''g''\<rparr>,
               40000)],
      vd_name = Some ''C'', vd_image = Some ''media/c.png'', vd_text = Some ''third'',
      vd_cooking_time = Some 15\<rparr>"

definition example_initial_db :: database where
  "example_initial_db =
     example_db\<lparr>recipes := [], recipe_tags := [], ingredientrecipes := [], favorites := [],
                subscribes := [], shopping_carts := []\<rparr>"

section \<open>Properties\<close>

subsection \<open>Query sets\<close>

lemma exists_qs_filter: "exists_qs (filter P xs) \<longleftrightarrow> (\<exists>x. x \<in> set xs \<and> P x)"
  by (auto simp: exists_qs_def filter_empty_conv)

lemma RecipeUser_eq:
  "(x :: RecipeUser) = \<lparr>row_recipe = r, row_user = u\<rparr> \<longleftrightarrow> row_recipe x = r \<and> row_user x = u"
  by (cases x) auto

lemma Subscribe_eq:
  "(s :: Subscribe) = \<lparr>sub_author = a, sub_follower = f\<rparr>
     \<longleftrightarrow> sub_author s = a \<and> sub_follower s = f"
  by (cases s) auto

lemma exists_row:
  "exists_qs (filter (\<lambda>x. row_recipe x = r \<and> row_user x = u) xs)
     \<longleftrightarrow> \<lparr>row_recipe = r, row_user = u\<rparr> \<in> set xs"
  by (auto simp: exists_qs_filter RecipeUser_eq [symmetric])

lemma exists_subscription:
  "exists_qs (filter (\<lambda>s. sub_author s = a \<and> sub_follower s = f) xs)
     \<longleftrightarrow> \<lparr>sub_author = a, sub_follower = f\<rparr> \<in> set xs"
  by (auto simp: exists_qs_filter Subscribe_eq [symmetric])

subsection \<open>Per-viewer flags of a recipe\<close>

text \<open>
  C6. For an unauthenticated viewer both flags of every recipe are false; for the
  authenticated viewer \<open>u\<close>, \<open>is_favorited\<close> holds exactly when the Favorite table has the
  row (recipe, \<open>u\<close>), and \<open>is_in_shopping_cart\<close> exactly when the ShoppingCart table has
  the row (recipe, \<open>u\<close>).
\<close>

theorem recipe_flags:
  "get_is_favorited d AnonymousUser r = False
   \<and> get_is_in_shopping_cart d AnonymousUser r = False
   \<and> (get_is_favorited d (AuthUser u) r
        \<longleftrightarrow> \<lparr>row_recipe = recipe_id r, row_user = u\<rparr> \<in> set (favorites d))
   \<and> (get_is_in_shopping_cart d (AuthUser u) r
        \<longleftrightarrow> \<lparr>row_recipe = recipe_id r, row_user = u\<rparr> \<in> set (shopping_carts d))"
  by (auto simp: get_is_favorited_def get_is_in_shopping_cart_def exists_qs_filter
        RecipeUser_eq [symmetric])

lemma objects_get_Nil: "filter P xs = [] \<Longrightarrow> objects_get P xs = Inl DoesNotExist"
  by (simp add: objects_get_def)

lemma objects_get_single: "filter P xs = [x] \<Longrightarrow> objects_get P xs = Inr x"
  by (simp add: objects_get_def)

lemma get_object_or_404_single: "filter P xs = [x] \<Longrightarrow> get_object_or_404 P xs = Inr x"
  by (simp add: get_object_or_404_def objects_get_single)

lemma filter_single_key: "filter P xs = [x] \<Longrightarrow> P x"
proof -
  assume "filter P xs = [x]"
  then have "x \<in> set (filter P xs)" by simp
  then show "P x" by simp
qed

lemma objects_get_Inr: "objects_get P xs = Inr x \<Longrightarrow> filter P xs = [x]"
  by (auto simp: objects_get_def split: list.splits)

lemma get_object_or_404_Inr: "get_object_or_404 P xs = Inr x \<Longrightarrow> filter P xs = [x]"
  by (auto simp: get_object_or_404_def dest: objects_get_Inr split: sum.splits error.splits)

lemma filter_eq_distinct:
  "distinct xs \<Longrightarrow> a \<in> set xs \<Longrightarrow> filter (\<lambda>x. a = x) xs = [a]"
  by (induction xs) (auto simp: filter_empty_conv)

lemma filter_row_distinct:
  assumes "distinct xs" "\<lparr>row_recipe = r, row_user = u\<rparr> \<in> set xs"
  shows "filter (\<lambda>x. row_recipe x = r \<and> row_user x = u) xs = [\<lparr>row_recipe = r, row_user = u\<rparr>]"
proof -
  have "filter (\<lambda>x. row_recipe x = r \<and> row_user x = u) xs
        = filter (\<lambda>x. \<lparr>row_recipe = r, row_user = u\<rparr> = x) xs"
    by (rule filter_cong) (auto simp: RecipeUser_eq)
  also have "\<dots> = [\<lparr>row_recipe = r, row_user = u\<rparr>]"
    using assms by (rule filter_eq_distinct)
  finally show ?thesis .
qed

lemma filter_row_absent:
  assumes "\<lparr>row_recipe = r, row_user = u\<rparr> \<notin> set xs"
  shows "filter (\<lambda>x. row_recipe x = r \<and> row_user x = u) xs = []"
  using assms by (auto simp: filter_empty_conv RecipeUser_eq [symmetric])

lemma filter_subscription_absent:
  assumes "\<lparr>sub_author = a, sub_follower = f\<rparr> \<notin> set xs"
  shows "filter (\<lambda>s. sub_author s = a \<and> sub_follower s = f) xs = []"
  using assms by (auto simp: filter_empty_conv Subscribe_eq [symmetric])

lemma status_code_non_field_error: "status_code (Inl (non_field_error m)) = 400"
  by (simp add: status_code_def non_field_error_def)

lemma objects_with_objects [simp]: "objects m (with_objects m rows d) = rows"
  by (cases m) (simp_all add: objects_def with_objects_def)

lemma recipes_with_objects [simp]: "recipes (with_objects m rows d) = recipes d"
  by (cases m) (simp_all add: with_objects_def)

subsection \<open>Serialized subscription flag\<close>

text \<open>
  C10. The serialized \<open>is_subscribed\<close> of a user does not depend on the stored column:
  whatever the users table holds and whatever the stored boolean of the serialized row
  is, the output is the same. It is the existence of the Subscribe row (that user as
  author, the requester as follower), and false for an unauthenticated requester.
\<close>

theorem is_subscribed_independent:
  "CustomUserSerializer_data (d\<lparr>users := us\<rparr>) requester (obj\<lparr>is_subscribed := b\<rparr>)
     = CustomUserSerializer_data d requester obj
   \<and> out_is_subscribed (CustomUserSerializer_data d (AuthUser f) obj)
       = (\<lparr>sub_author = user_id obj, sub_follower = f\<rparr> \<in> set (subscribes d))
   \<and> out_is_subscribed (CustomUserSerializer_data d AnonymousUser obj) = False"
  by (simp add: CustomUserSerializer_data_def get_is_subscribed_def exists_subscription
        split: request_user.splits)

theorem is_subscribed_independent_witness:
  "CustomUserSerializer_data example_db (AuthUser 2) (hd example_users)
     = \<lparr>out_email = ''a@example.org'', out_id = 1, out_username = ''alice'',
        out_first_name = ''Alice'', out_last_name = ''A'', out_is_subscribed = True\<rparr>
   \<and> CustomUserSerializer_data (example_db\<lparr>users := []\<rparr>) (AuthUser 2)
        ((hd example_users)\<lparr>is_subscribed := True\<rparr>)
     = \<lparr>out_email = ''a@example.org'', out_id = 1, out_username = ''alice'',
        out_first_name = ''Alice'', out_last_name = ''A'', out_is_subscribed = True\<rparr>"
  using is_subscribed_independent [where d = example_db and us = "[]" and requester = "AuthUser 2"
      and obj = "hd example_users" and b = True and f = 2]
  by (simp add: CustomUserSerializer_data_def get_is_subscribed_def exists_qs_def
        example_db_def example_users_def)

subsection \<open>Subscription toggle\<close>

lemma subscribe_self_fails: "\<exists>e. subscribe POST a a d = (Inl e, d)"
proof (cases "get_object_or_404 (\<lambda>u. user_id u = a) (users d)")
  case (Inl e)
  then show ?thesis by (simp add: subscribe_def)
next
  case (Inr author)
  then have "user_id author = a"
    by (auto dest: get_object_or_404_Inr filter_single_key)
  with Inr show ?thesis
    by (simp add: subscribe_def SubscribeSerializer_validate_def)
qed

text \<open>
  C5. Subscribing when the subscription exists, unsubscribing when it does not, and
  subscribing to oneself are each rejected with a 400, and the three messages are
  different texts. Subscribing to oneself fails in every database: with the "already
  subscribed" message when the self-subscription row exists, with the "self" message
  otherwise (and with a 404 when the user of the URL does not exist).
\<close>

theorem subscribe_rejections:
  "(\<exists>e. subscribe POST a a d = (Inl e, d))
   \<and> distinct [message_text AlreadySubscribed, message_text NoSubscription,
                 message_text SelfSubscribe]
   \<and> (filter (\<lambda>u. user_id u = a) (users d) = [author] \<longrightarrow>
        (\<lparr>sub_author = a, sub_follower = f\<rparr> \<in> set (subscribes d)
            \<longrightarrow> subscribe POST a f d = (Inl (non_field_error AlreadySubscribed), d))
       \<and> (\<lparr>sub_author = a, sub_follower = f\<rparr> \<notin> set (subscribes d)
            \<longrightarrow> subscribe DELETE a f d = (Inl (non_field_error NoSubscription), d))
       \<and> (\<lparr>sub_author = a, sub_follower = a\<rparr> \<notin> set (subscribes d)
            \<longrightarrow> subscribe POST a a d = (Inl (non_field_error SelfSubscribe), d))
       \<and> (\<exists>m. subscribe POST a a d = (Inl (non_field_error m), d)
                \<and> status_code (Inl (non_field_error m)) = 400))"
proof (intro conjI impI)
  show "\<exists>e. subscribe POST a a d = (Inl e, d)"
    by (rule subscribe_self_fails)
  show "distinct [message_text AlreadySubscribed, message_text NoSubscription,
          message_text SelfSubscribe]"
    by simp
next
  assume author: "filter (\<lambda>u. user_id u = a) (users d) = [author]"
  have got: "get_object_or_404 (\<lambda>u. user_id u = a) (users d) = Inr author"
    using author by (rule get_object_or_404_single)
  have key: "user_id author = a"
    using filter_single_key [OF author] .
  have twice: "subscribe POST a f d = (Inl (non_field_error AlreadySubscribed), d)"
    if "\<lparr>sub_author = a, sub_follower = f\<rparr> \<in> set (subscribes d)" for f
    using that
    by (simp add: subscribe_def got key SubscribeSerializer_validate_def exists_subscription)
  have self: "subscribe POST a a d = (Inl (non_field_error SelfSubscribe), d)"
    if "\<lparr>sub_author = a, sub_follower = a\<rparr> \<notin> set (subscribes d)"
    using that
    by (simp add: subscribe_def got key SubscribeSerializer_validate_def exists_subscription)
  {
    assume "\<lparr>sub_author = a, sub_follower = f\<rparr> \<in> set (subscribes d)"
    then show "subscribe POST a f d = (Inl (non_field_error AlreadySubscribed), d)"
      by (rule twice)
  }
  {
    assume absent: "\<lparr>sub_author = a, sub_follower = f\<rparr> \<notin> set (subscribes d)"
    show "subscribe DELETE a f d = (Inl (non_field_error NoSubscription), d)"
      using filter_subscription_absent [OF absent]
      by (simp add: subscribe_def got key SubscribeSerializer_validate_def objects_get_def)
  }
  {
    assume "\<lparr>sub_author = a, sub_follower = a\<rparr> \<notin> set (subscribes d)"
    then show "subscribe POST a a d = (Inl (non_field_error SelfSubscribe), d)"
      by (rule self)
  }
  show "\<exists>m. subscribe POST a a d = (Inl (non_field_error m), d)
          \<and> status_code (Inl (non_field_error m)) = 400"
    using twice [of a] self
    by (cases "\<lparr>sub_author = a, sub_follower = a\<rparr> \<in> set (subscribes d)")
      (auto simp: status_code_non_field_error)
qed

theorem subscribe_rejections_witness:
  "subscribe POST 1 2 example_db = (Inl (non_field_error AlreadySubscribed), example_db)
   \<and> subscribe DELETE 2 1 example_db = (Inl (non_field_error NoSubscription), example_db)
   \<and> subscribe POST 1 1 example_db = (Inl (non_field_error SelfSubscribe), example_db)"
  using subscribe_rejections [where a = 1 and d = example_db and author = "hd example_users" and f = 2]
    subscribe_rejections [where a = 2 and d = example_db and author = "hd (tl example_users)"
      and f = 1]
  by (simp add: example_db_def example_users_def)

subsection \<open>Favorite and shopping-cart toggle\<close>

lemma toggle_add_conflict:
  assumes "filter (\<lambda>r. recipe_id r = k) (recipes d) = [recipe]"
    and "\<lparr>row_recipe = k, row_user = u\<rparr> \<in> set (objects m d)"
  shows "action_of m POST k u d = (Inl (non_field_error AlreadyInCartOrFavorite), d)"
proof -
  have key: "recipe_id recipe = k" using filter_single_key [OF assms(1)] .
  show ?thesis
    using assms(2) get_object_or_404_single [OF assms(1)]
    by (cases m)
      (simp_all add: action_of_def favorite_def shopping_cart_def serialize_obj_def key
        RecipeMinifiedSerializer_validate_def exists_row)
qed

lemma toggle_add_ok:
  assumes "filter (\<lambda>r. recipe_id r = k) (recipes d) = [recipe]"
    and "\<lparr>row_recipe = k, row_user = u\<rparr> \<notin> set (objects m d)"
  shows "action_of m POST k u d
         = (Inr 201, with_objects m (objects m d @ [\<lparr>row_recipe = k, row_user = u\<rparr>]) d)"
proof -
  have key: "recipe_id recipe = k" using filter_single_key [OF assms(1)] .
  show ?thesis
    using assms(2) get_object_or_404_single [OF assms(1)]
    by (cases m)
      (simp_all add: action_of_def favorite_def shopping_cart_def serialize_obj_def key
        RecipeMinifiedSerializer_validate_def exists_row add_obj_def model_objects_create_def)
qed

lemma toggle_del_absent:
  assumes "filter (\<lambda>r. recipe_id r = k) (recipes d) = [recipe]"
    and "\<lparr>row_recipe = k, row_user = u\<rparr> \<notin> set (objects m d)"
  shows "action_of m DELETE k u d = (Inl (non_field_error NotInCartOrFavorite), d)"
proof -
  have key: "recipe_id recipe = k" using filter_single_key [OF assms(1)] .
  show ?thesis
    using filter_row_absent [OF assms(2)] get_object_or_404_single [OF assms(1)]
    by (cases m)
      (simp_all add: action_of_def favorite_def shopping_cart_def serialize_obj_def key
        RecipeMinifiedSerializer_validate_def objects_get_def)
qed

lemma toggle_del_ok:
  assumes "filter (\<lambda>r. recipe_id r = k) (recipes d) = [recipe]"
    and "distinct (objects m d)"
    and "\<lparr>row_recipe = k, row_user = u\<rparr> \<in> set (objects m d)"
  shows "action_of m DELETE k u d
         = (Inr 204, with_objects m
              (filter (\<lambda>x. x \<noteq> \<lparr>row_recipe = k, row_user = u\<rparr>) (objects m d)) d)"
proof -
  have key: "recipe_id recipe = k" using filter_single_key [OF assms(1)] .
  show ?thesis
    using filter_row_distinct [OF assms(2,3)] get_object_or_404_single [OF assms(1)]
    by (cases m)
      (simp_all add: action_of_def favorite_def shopping_cart_def serialize_obj_def key
        RecipeMinifiedSerializer_validate_def objects_get_def del_obj_def)
qed

text \<open>
  C4. For an existing recipe \<open>k\<close>, a user \<open>u\<close> and either membership class, in a
  database whose membership table has no repeated row: when the row (\<open>k\<close>, \<open>u\<close>)
  exists, adding is rejected with a 400 and removing succeeds (204) and deletes the row;
  when it does not exist, removing is rejected with a 400 and adding succeeds (201) and
  appends the row. After a successful add followed by a second add, the second answer is
  a 400, the database is the one the first add left, and exactly one row matches.
\<close>

theorem membership_toggle:
  assumes recipe: "filter (\<lambda>r. recipe_id r = k) (recipes d) = [recipe]"
    and unique: "distinct (objects m d)"
  shows "(\<lparr>row_recipe = k, row_user = u\<rparr> \<in> set (objects m d) \<longrightarrow>
            action_of m POST k u d = (Inl (non_field_error AlreadyInCartOrFavorite), d)
          \<and> status_code (fst (action_of m POST k u d)) = 400
          \<and> action_of m DELETE k u d
              = (Inr 204, with_objects m
                   (filter (\<lambda>x. x \<noteq> \<lparr>row_recipe = k, row_user = u\<rparr>) (objects m d)) d))
       \<and> (\<lparr>row_recipe = k, row_user = u\<rparr> \<notin> set (objects m d) \<longrightarrow>
            action_of m DELETE k u d = (Inl (non_field_error NotInCartOrFavorite), d)
          \<and> status_code (fst (action_of m DELETE k u d)) = 400
          \<and> action_of m POST k u d
              = (Inr 201, with_objects m
                   (objects m d @ [\<lparr>row_recipe = k, row_user = u\<rparr>]) d)
          \<and> (case action_of m POST k u d of
                (first, d1) \<Rightarrow>
                  (case action_of m POST k u d1 of
                     (second, d2) \<Rightarrow>
                       first = Inr 201 \<and> status_code second = 400 \<and> d2 = d1
                       \<and> length (filter (\<lambda>x. row_recipe x = k \<and> row_user x = u)
                                   (objects m d2)) = 1)))"
proof (intro conjI impI)
  let ?row = "\<lparr>row_recipe = k, row_user = u\<rparr>"
  {
    assume present: "?row \<in> set (objects m d)"
    show "action_of m POST k u d = (Inl (non_field_error AlreadyInCartOrFavorite), d)"
      using recipe present by (rule toggle_add_conflict)
    then show "status_code (fst (action_of m POST k u d)) = 400"
      by (simp add: status_code_non_field_error)
    show "action_of m DELETE k u d
          = (Inr 204, with_objects m (filter (\<lambda>x. x \<noteq> ?row) (objects m d)) d)"
      using recipe unique present by (rule toggle_del_ok)
  }
  {
    assume absent: "?row \<notin> set (objects m d)"
    show "action_of m DELETE k u d = (Inl (non_field_error NotInCartOrFavorite), d)"
      using recipe absent by (rule toggle_del_absent)
    then show "status_code (fst (action_of m DELETE k u d)) = 400"
      by (simp add: status_code_non_field_error)
    let ?d1 = "with_objects m (objects m d @ [?row]) d"
    show first: "action_of m POST k u d = (Inr 201, ?d1)"
      using recipe absent by (rule toggle_add_ok)
    have recipe1: "filter (\<lambda>r. recipe_id r = k) (recipes ?d1) = [recipe]"
      using recipe by simp
    have second: "action_of m POST k u ?d1 = (Inl (non_field_error AlreadyInCartOrFavorite), ?d1)"
      by (rule toggle_add_conflict [OF recipe1]) simp
    have one: "length (filter (\<lambda>x. row_recipe x = k \<and> row_user x = u) (objects m ?d1)) = 1"
      using filter_row_absent [OF absent] by simp
    show "case action_of m POST k u d of
            (first, d1) \<Rightarrow>
              (case action_of m POST k u d1 of
                 (second, d2) \<Rightarrow>
                   first = Inr 201 \<and> status_code second = 400 \<and> d2 = d1
                   \<and> length (filter (\<lambda>x. row_recipe x = k \<and> row_user x = u)
                               (objects m d2)) = 1)"
      using one by (simp add: first second status_code_non_field_error)
  }
qed

theorem membership_toggle_witness:
  "action_of Favorite POST 1 2 example_db
     = (Inl (non_field_error AlreadyInCartOrFavorite), example_db)
   \<and> action_of Favorite DELETE 1 2 example_db = (Inr 204, example_db\<lparr>favorites := []\<rparr>)
   \<and> action_of Favorite DELETE 2 2 example_db
     = (Inl (non_field_error NotInCartOrFavorite), example_db)
   \<and> action_of Favorite POST 2 2 example_db
     = (Inr 201, example_db\<lparr>favorites :=
          [\<lparr>row_recipe = 1, row_user = 2\<rparr>, \<lparr>row_recipe = 2, row_user = 2\<rparr>]\<rparr>)"
  using membership_toggle [where k = 1 and d = example_db and recipe = "hd example_recipes"
      and m = Favorite and u = 2]
    membership_toggle [where k = 2 and d = example_db and recipe = "hd (tl example_recipes)"
      and m = Favorite and u = 2]
  by (simp add: example_db_def example_recipes_def objects_def with_objects_def)

subsection \<open>Shopping-list aggregation\<close>

lemma keys_add_to_group:
  "map fst (add_to_group k a gs)
     = (if k \<in> fst ` set gs then map fst gs else map fst gs @ [k])"
  by (induction gs) force+

lemma map_of_add_to_group:
  "map_of (add_to_group k a gs) k'
     = (if k' = k then Some ((case map_of gs k of None \<Rightarrow> 0 | Some t \<Rightarrow> t) + a)
        else map_of gs k')"
  by (induction gs) auto

lemma add_row_eq: "add_row gs row = add_to_group (row_key row) (row_amount row) gs"
  by (cases row) (simp add: add_row_def row_key_def row_amount_def)

lemma keys_foldl:
  "fst ` set (foldl add_row gs rows) = fst ` set gs \<union> row_key ` set rows"
proof (induction rows arbitrary: gs)
  case Nil
  show ?case by simp
next
  case (Cons row rows)
  have "set (map fst (add_row gs row)) = insert (row_key row) (fst ` set gs)"
    unfolding add_row_eq keys_add_to_group by force
  then have "fst ` set (add_row gs row) = insert (row_key row) (fst ` set gs)"
    by simp
  then show ?case
    by (simp add: Cons.IH)
qed

lemma distinct_foldl:
  "distinct (map fst gs) \<Longrightarrow> distinct (map fst (foldl add_row gs rows))"
proof (induction rows arbitrary: gs)
  case Nil
  then show ?case by simp
next
  case (Cons row rows)
  have "distinct (map fst (add_row gs row))"
    unfolding add_row_eq using Cons.prems by (simp add: keys_add_to_group)
  then show ?case
    by (simp add: Cons.IH)
qed

lemma map_of_foldl:
  "map_of (foldl add_row gs rows) k
     = (if k \<in> fst ` set gs \<union> row_key ` set rows
        then Some ((case map_of gs k of None \<Rightarrow> 0 | Some t \<Rightarrow> t)
                   + sum_list (map row_amount (filter (\<lambda>row. row_key row = k) rows)))
        else None)"
proof (induction rows arbitrary: gs)
  case Nil
  show ?case
  proof (cases "map_of gs k")
    case None
    then show ?thesis by (simp add: map_of_eq_None_iff)
  next
    case (Some t)
    then have "k \<in> fst ` set gs"
      by (metis map_of_eq_None_iff option.distinct(1))
    with Some show ?thesis by simp
  qed
next
  case (Cons row rows)
  have keys: "fst ` set (add_row gs row) = insert (row_key row) (fst ` set gs)"
    using keys_foldl [of gs "[row]"] by simp
  have look: "map_of (add_row gs row) k
      = (if k = row_key row
         then Some ((case map_of gs (row_key row) of None \<Rightarrow> 0 | Some t \<Rightarrow> t)
                    + row_amount row)
         else map_of gs k)"
    unfolding add_row_eq by (rule map_of_add_to_group)
  show ?case
  proof (cases "k = row_key row")
    case True
    then have "row_key row = k" by simp
    then show ?thesis
      by (simp add: Cons.IH look keys)
  next
    case False
    then show ?thesis
      by (simp add: Cons.IH look keys)
  qed
qed



lemma annotate_distinct: "distinct (map fst (values_annotate_sum rows))"
  by (simp add: values_annotate_sum_def distinct_foldl)

lemma annotate_keys: "fst ` set (values_annotate_sum rows) = row_key ` set rows"
  by (simp add: values_annotate_sum_def keys_foldl)

lemma annotate_totals:
  "values_annotate_sum rows
     = map (\<lambda>k. (k, sum_list (map row_amount (filter (\<lambda>row. row_key row = k) rows))))
         (map fst (values_annotate_sum rows))"
proof -
  let ?gs = "values_annotate_sum rows"
  let ?total = "\<lambda>k. sum_list (map row_amount (filter (\<lambda>row. row_key row = k) rows))"
  have "(\<lambda>k. (k, ?total k)) (fst g) = g" if "g \<in> set ?gs" for g
  proof -
    obtain k t where g: "g = (k, t)" by (cases g)
    then have "map_of ?gs k = Some t"
      using that annotate_distinct [of rows] by simp
    moreover have "k \<in> fst ` set ?gs"
      using that g by force
    ultimately have "t = ?total k"
      by (simp add: values_annotate_sum_def map_of_foldl keys_foldl)
    with g show ?thesis by simp
  qed
  then have "map ((\<lambda>k. (k, ?total k)) \<circ> fst) ?gs = ?gs"
    by (simp add: map_idI)
  then show ?thesis by simp
qed



lemma filter_key_unique:
  "distinct (map f xs) \<Longrightarrow> x \<in> set xs \<Longrightarrow> filter (\<lambda>y. f y = f x) xs = [x]"
proof (induction xs)
  case Nil
  then show ?case by simp
next
  case (Cons y ys)
  show ?case
  proof (cases "x = y")
    case True
    have "f y \<notin> f ` set ys"
      using Cons.prems(1) by simp
    then have "filter (\<lambda>z. f z = f y) ys = []"
      unfolding filter_empty_conv image_iff by metis
    with True show ?thesis by simp
  next
    case False
    then have "x \<in> set ys" using Cons.prems(2) by simp
    moreover have "f y \<noteq> f x"
      using Cons.prems(1) \<open>x \<in> set ys\<close> by auto
    ultimately show ?thesis
      using Cons by simp
  qed
qed

lemma concat_map_if: "concat (map (\<lambda>x. if Q x then [g x] else []) xs) = map g (filter Q xs)"
  by (induction xs) auto

lemma recipe_cart_join:
  assumes "distinct (map recipe_id (recipes d))" and "distinct (shopping_carts d)"
  shows "concat (map (\<lambda>r. concat (map (\<lambda>sc. rest)
             (filter (\<lambda>sc. row_recipe sc = recipe_id r \<and> row_user sc = user) (shopping_carts d))))
           (filter (\<lambda>r. recipe_id r = x) (recipes d)))
         = (if x \<in> cart_recipes d user then rest else [])"
proof (cases "\<exists>r. r \<in> set (recipes d) \<and> recipe_id r = x")
  case False
  then have "filter (\<lambda>r. recipe_id r = x) (recipes d) = []"
    by (auto simp: filter_empty_conv)
  moreover have "x \<notin> cart_recipes d user"
    using False by (auto simp: cart_recipes_def)
  ultimately show ?thesis by simp
next
  case True
  then obtain r where r: "r \<in> set (recipes d)" "recipe_id r = x" by blast
  have one: "filter (\<lambda>r. recipe_id r = x) (recipes d) = [r]"
    using filter_key_unique [OF assms(1) r(1)] r(2) by simp
  show ?thesis
  proof (cases "\<lparr>row_recipe = x, row_user = user\<rparr> \<in> set (shopping_carts d)")
    case True
    then have "x \<in> cart_recipes d user"
      using r by (auto simp: cart_recipes_def)
    then show ?thesis
      using filter_row_distinct [OF assms(2) True] by (simp add: one r(2))
  next
    case False
    then have "x \<notin> cart_recipes d user"
      by (auto simp: cart_recipes_def)
    then show ?thesis
      using filter_row_absent [OF False] by (simp add: one r(2))
  qed
qed

lemma ingredient_join:
  assumes "distinct (map ingredient_id (ingredients d))"
  shows "map row_amount (filter (\<lambda>row. row_key row = k)
           (map (\<lambda>i. (ingredient_name i, measurement_unit i, a))
              (filter (\<lambda>i. ingredient_id i = x) (ingredients d))))
         = (if \<exists>i. i \<in> set (ingredients d) \<and> ingredient_id i = x
                 \<and> (ingredient_name i, measurement_unit i) = k
            then [a] else [])"
proof (cases "\<exists>i. i \<in> set (ingredients d) \<and> ingredient_id i = x")
  case False
  then have "filter (\<lambda>i. ingredient_id i = x) (ingredients d) = []"
    by (auto simp: filter_empty_conv)
  moreover have "\<not> (\<exists>i. i \<in> set (ingredients d) \<and> ingredient_id i = x
                \<and> (ingredient_name i, measurement_unit i) = k)"
    using False by blast
  ultimately show ?thesis by simp
next
  case True
  then obtain i where i: "i \<in> set (ingredients d)" "ingredient_id i = x" by blast
  have one: "filter (\<lambda>i. ingredient_id i = x) (ingredients d) = [i]"
    using filter_key_unique [OF assms i(1)] i(2) by simp
  have same: "j = i" if "j \<in> set (ingredients d)" "ingredient_id j = x" for j
  proof -
    have "j \<in> set (filter (\<lambda>i. ingredient_id i = x) (ingredients d))"
      using that by simp
    then show ?thesis by (simp add: one)
  qed
  have ex: "(\<exists>j. j \<in> set (ingredients d) \<and> ingredient_id j = x
                \<and> (ingredient_name j, measurement_unit j) = k)
            \<longleftrightarrow> (ingredient_name i, measurement_unit i) = k"
    using i same by blast
  show ?thesis
    unfolding one ex by (simp add: row_key_def row_amount_def)
qed

lemma cart_rows_amounts:
  assumes "distinct (map recipe_id (recipes d))"
    and "distinct (map ingredient_id (ingredients d))"
    and "distinct (shopping_carts d)"
  shows "map row_amount (filter (\<lambda>row. row_key row = k) (cart_rows d user))
         = cart_amounts d user k"
proof -
  have rows: "cart_rows d user
      = concat (map (\<lambda>ir. if ir_recipe ir \<in> cart_recipes d user
                            then map (\<lambda>i. (ingredient_name i, measurement_unit i, ir_amount ir))
                                   (filter (\<lambda>i. ingredient_id i = ir_ingredient ir)
                                      (ingredients d))
                            else [])
                 (ingredientrecipes d))"
    unfolding cart_rows_def
    by (simp add: recipe_cart_join [OF assms(1,3)] concat_map_singleton o_def cong: map_cong)
  have "map row_amount (filter (\<lambda>row. row_key row = k)
          (concat (map (\<lambda>ir. if ir_recipe ir \<in> cart_recipes d user
                            then map (\<lambda>i. (ingredient_name i, measurement_unit i, ir_amount ir))
                                   (filter (\<lambda>i. ingredient_id i = ir_ingredient ir)
                                      (ingredients d))
                            else [])
                 irs)))
        = map ir_amount
            (filter (\<lambda>ir. ir_recipe ir \<in> cart_recipes d user
                       \<and> (\<exists>i. i \<in> set (ingredients d) \<and> ingredient_id i = ir_ingredient ir
                              \<and> (ingredient_name i, measurement_unit i) = k))
               irs)" for irs
  proof (induction irs)
    case Nil
    show ?case by simp
  next
    case (Cons ir irs)
    have head: "map row_amount (filter (\<lambda>row. row_key row = k)
          (map (\<lambda>i. (ingredient_name i, measurement_unit i, ir_amount ir))
             (filter (\<lambda>i. ingredient_id i = ir_ingredient ir) (ingredients d))))
        = (if \<exists>i. i \<in> set (ingredients d) \<and> ingredient_id i = ir_ingredient ir
                 \<and> (ingredient_name i, measurement_unit i) = k
           then [ir_amount ir] else [])"
      by (rule ingredient_join [OF assms(2)])
    show ?case
    proof (cases "ir_recipe ir \<in> cart_recipes d user")
      case False
      then show ?thesis
        using Cons.IH by simp
    next
      case True
      show ?thesis
      proof (cases "\<exists>i. i \<in> set (ingredients d) \<and> ingredient_id i = ir_ingredient ir
                       \<and> (ingredient_name i, measurement_unit i) = k")
        case yes: True
        then have "map row_amount (filter (\<lambda>row. row_key row = k)
              (map (\<lambda>i. (ingredient_name i, measurement_unit i, ir_amount ir))
                 (filter (\<lambda>i. ingredient_id i = ir_ingredient ir) (ingredients d))))
            = [ir_amount ir]"
          using head by simp
        then show ?thesis
          using True yes Cons.IH by simp
      next
        case no: False
        then have "map row_amount (filter (\<lambda>row. row_key row = k)
              (map (\<lambda>i. (ingredient_name i, measurement_unit i, ir_amount ir))
                 (filter (\<lambda>i. ingredient_id i = ir_ingredient ir) (ingredients d))))
            = []"
          using head by simp
        then show ?thesis
          using True no Cons.IH by simp
      qed
    qed
  qed
  then show ?thesis
    unfolding rows cart_amounts_def .
qed


lemma enumerate_map_snd:
  "enumerate n (map f xs) = map (\<lambda>(i, x). (i, f x)) (enumerate n xs)"
  by (induction xs arbitrary: n) auto

text \<open>
  C3. In a database whose recipe and ingredient keys are unique and whose shopping-cart
  table has no repeated row, the list downloaded by a user is the header followed by
  one numbered line per group (name, unit) that has a join row in a recipe of the user's
  cart; the groups are distinct, none is missing, and the total of a line is the sum of
  the amounts of those join rows. The order of the lines is the one the query returns.
  For the cart with recipe 1 (Salt 2, Pepper 1) and recipe 2 (Salt 3) the list has the
  line of Salt with total 5 and the line of Pepper with total 1, and no other.
\<close>

theorem shopping_list_aggregation:
  assumes "distinct (map recipe_id (recipes d))"
    and "distinct (map ingredient_id (ingredients d))"
    and "distinct (shopping_carts d)"
  shows "(\<exists>keys. distinct keys
           \<and> set keys = {k. cart_amounts d user k \<noteq> []}
           \<and> generate_shopping_cart d user
               = shopping_cart_header
                 @ join [CHR 0x0A]
                     (map (\<lambda>(index, name, unit).
                             str_int (int index + 1) @ ''. '' @ name @ '': ''
                             @ str_int (sum_list (cart_amounts d user (name, unit)))
                             @ '' '' @ unit)
                        (enumerate 0 keys)))
       \<and> generate_shopping_cart example_db 2
           = shopping_cart_header @ ''1. Salt: 5 g'' @ [CHR 0x0A] @ ''2. Pepper: 1 g''"
proof
  let ?rows = "cart_rows d user"
  let ?groups = "values_annotate_sum ?rows"
  let ?keys = "map fst ?groups"
  have amounts: "map row_amount (filter (\<lambda>row. row_key row = k) ?rows) = cart_amounts d user k"
    for k
    using assms by (rule cart_rows_amounts)
  have "set ?keys = row_key ` set ?rows"
    using annotate_keys [of ?rows] by simp
  also have "\<dots> = {k. filter (\<lambda>row. row_key row = k) ?rows \<noteq> []}"
    unfolding filter_empty_conv image_iff by blast
  also have "\<dots> = {k. cart_amounts d user k \<noteq> []}"
    using amounts by (metis (no_types, lifting) map_is_Nil_conv)
  finally have keys: "set ?keys = {k. cart_amounts d user k \<noteq> []}" .
  have groups: "?groups = map (\<lambda>k. (k, sum_list (cart_amounts d user k))) ?keys"
    using annotate_totals [of ?rows] by (simp only: amounts)
  have "map shopping_cart_line (enumerate 0 ?groups)
        = map (\<lambda>(index, name, unit).
                 str_int (int index + 1) @ ''. '' @ name @ '': ''
                 @ str_int (sum_list (cart_amounts d user (name, unit))) @ '' '' @ unit)
            (enumerate 0 ?keys)"
    by (subst groups) (simp add: enumerate_map_snd shopping_cart_line_def split_def)
  then have out: "generate_shopping_cart d user
        = shopping_cart_header
          @ join [CHR 0x0A]
              (map (\<lambda>(index, name, unit).
                      str_int (int index + 1) @ ''. '' @ name @ '': ''
                      @ str_int (sum_list (cart_amounts d user (name, unit))) @ '' '' @ unit)
                 (enumerate 0 ?keys))"
    by (simp add: generate_shopping_cart_def)
  show "\<exists>keys. distinct keys
           \<and> set keys = {k. cart_amounts d user k \<noteq> []}
           \<and> generate_shopping_cart d user
               = shopping_cart_header
                 @ join [CHR 0x0A]
                     (map (\<lambda>(index, name, unit).
                             str_int (int index + 1) @ ''. '' @ name @ '': ''
                             @ str_int (sum_list (cart_amounts d user (name, unit)))
                             @ '' '' @ unit)
                        (enumerate 0 keys))"
    using annotate_distinct [of ?rows] keys out by blast
next
  show "generate_shopping_cart example_db 2
        = shopping_cart_header @ ''1. Salt: 5 g'' @ [CHR 0x0A] @ ''2. Pepper: 1 g''"
    by code_simp
qed

theorem shopping_list_aggregation_witness:
  "\<exists>keys. distinct keys
      \<and> set keys = {k. cart_amounts example_db 2 k \<noteq> []}
      \<and> generate_shopping_cart example_db 2
          = shopping_cart_header
            @ join [CHR 0x0A]
                (map (\<lambda>(index, name, unit).
                        str_int (int index + 1) @ ''. '' @ name @ '': ''
                        @ str_int (sum_list (cart_amounts example_db 2 (name, unit)))
                        @ '' '' @ unit)
                   (enumerate 0 keys))"
proof -
  have "distinct (map recipe_id (recipes example_db))"
    by (simp add: example_db_def example_recipes_def)
  moreover have "distinct (map ingredient_id (ingredients example_db))"
    by (simp add: example_db_def)
  moreover have "distinct (shopping_carts example_db)"
    by (simp add: example_db_def)
  ultimately show ?thesis
    using shopping_list_aggregation [where d = example_db and user = 2] by blast
qed

subsection \<open>Bulk reference-data import\<close>


lemma Ingredient_objects_create_cases:
  "Ingredient_objects_create x d = (Inl e, d') \<Longrightarrow> d' = d"
  "Ingredient_objects_create x d = (Inr u, d')
     \<Longrightarrow> \<exists>row. d' = d\<lparr>ingredients := ingredients d @ [row]\<rparr>"
  by (auto simp: Ingredient_objects_create_def split: sum.splits option.splits if_splits)

lemma Tag_objects_create_cases:
  "Tag_objects_create x d = (Inl e, d') \<Longrightarrow> d' = d"
  "Tag_objects_create x d = (Inr u, d') \<Longrightarrow> \<exists>row. d' = d\<lparr>tags := tags d @ [row]\<rparr>"
  by (auto simp: Tag_objects_create_def split: sum.splits option.splits if_splits)

lemma load_ingredients_loop_appends:
  "\<exists>new events.
     snd (load_ingredients_loop recs (d, out))
       = (d\<lparr>ingredients := ingredients d @ new\<rparr>, out @ events)"
proof (induction recs arbitrary: d out)
  case Nil
  have "d = d\<lparr>ingredients := ingredients d @ []\<rparr>" by simp
  then have "\<exists>new. d = d\<lparr>ingredients := ingredients d @ new\<rparr>" by (rule exI)
  then show ?case by simp
next
  case (Cons x rest)
  have stop: "\<exists>new events. (d, out) = (d\<lparr>ingredients := ingredients d @ new\<rparr>, out @ events)"
  proof (intro exI)
    show "(d, out) = (d\<lparr>ingredients := ingredients d @ []\<rparr>, out @ [])" by simp
  qed
  show ?case
  proof (cases "getitem ''name'' (data_name x)")
    case (Inl e)
    then show ?thesis using stop by simp
  next
    case (Inr name)
    show ?thesis
    proof (cases "exists_qs (filter (\<lambda>i. Some (ingredient_name i) = name) (ingredients d))")
      case True
      obtain new events where
        "snd (load_ingredients_loop rest (d, out @ [Skipped name]))
           = (d\<lparr>ingredients := ingredients d @ new\<rparr>, (out @ [Skipped name]) @ events)"
        using Cons.IH [of d "out @ [Skipped name]"] by blast
      then have "snd (load_ingredients_loop (x # rest) (d, out))
           = (d\<lparr>ingredients := ingredients d @ new\<rparr>, out @ (Skipped name # events))"
        using Inr True by simp
      then show ?thesis by blast
    next
      case False
      obtain r d1 where create: "Ingredient_objects_create x d = (r, d1)"
        by (cases "Ingredient_objects_create x d")
      show ?thesis
      proof (cases r)
        case (Inl e)
        then have "d1 = d" using create Ingredient_objects_create_cases(1) by blast
        then show ?thesis using Inr False create Inl stop by simp
      next
        case r: (Inr u)
        then obtain row where d1: "d1 = d\<lparr>ingredients := ingredients d @ [row]\<rparr>"
          using create Ingredient_objects_create_cases(2) by blast
        obtain new events where
          "snd (load_ingredients_loop rest (d1, out @ [Added name]))
             = (d1\<lparr>ingredients := ingredients d1 @ new\<rparr>, (out @ [Added name]) @ events)"
          using Cons.IH [of d1 "out @ [Added name]"] by blast
        then have "snd (load_ingredients_loop (x # rest) (d, out))
             = (d\<lparr>ingredients := ingredients d @ (row # new)\<rparr>, out @ (Added name # events))"
          using Inr False create r d1 by simp
        then show ?thesis by blast
      qed
    qed
  qed
qed

lemma load_tags_loop_appends:
  "\<exists>new events.
     snd (load_tags_loop recs (d, out)) = (d\<lparr>tags := tags d @ new\<rparr>, out @ events)"
proof (induction recs arbitrary: d out)
  case Nil
  have "d = d\<lparr>tags := tags d @ []\<rparr>" by simp
  then have "\<exists>new. d = d\<lparr>tags := tags d @ new\<rparr>" by (rule exI)
  then show ?case by simp
next
  case (Cons x rest)
  have stop: "\<exists>new events. (d, out) = (d\<lparr>tags := tags d @ new\<rparr>, out @ events)"
  proof (intro exI)
    show "(d, out) = (d\<lparr>tags := tags d @ []\<rparr>, out @ [])" by simp
  qed
  show ?case
  proof (cases "getitem ''slug'' (data_slug x)")
    case (Inl e)
    then show ?thesis using stop by simp
  next
    case (Inr k)
    show ?thesis
    proof (cases "exists_qs (filter (\<lambda>t. slug t = k) (tags d))")
      case True
      obtain new events where
        "snd (load_tags_loop rest (d, out @ [Skipped k]))
           = (d\<lparr>tags := tags d @ new\<rparr>, (out @ [Skipped k]) @ events)"
        using Cons.IH [of d "out @ [Skipped k]"] by blast
      then have "snd (load_tags_loop (x # rest) (d, out))
           = (d\<lparr>tags := tags d @ new\<rparr>, out @ (Skipped k # events))"
        using Inr True by simp
      then show ?thesis by blast
    next
      case False
      obtain r d1 where create: "Tag_objects_create x d = (r, d1)"
        by (cases "Tag_objects_create x d")
      show ?thesis
      proof (cases r)
        case (Inl e)
        then have "d1 = d" using create Tag_objects_create_cases(1) by blast
        then show ?thesis using Inr False create Inl stop by simp
      next
        case r: (Inr u)
        then obtain row where d1: "d1 = d\<lparr>tags := tags d @ [row]\<rparr>"
          using create Tag_objects_create_cases(2) by blast
        obtain new events where
          "snd (load_tags_loop rest (d1, out @ [Added k]))
             = (d1\<lparr>tags := tags d1 @ new\<rparr>, (out @ [Added k]) @ events)"
          using Cons.IH [of d1 "out @ [Added k]"] by blast
        then have "snd (load_tags_loop (x # rest) (d, out))
             = (d\<lparr>tags := tags d @ (row # new)\<rparr>, out @ (Added k # events))"
          using Inr False create r d1 by simp
        then show ?thesis by blast
      qed
    qed
  qed
qed

lemma getitem_Inr: "getitem key v = Inr k \<longleftrightarrow> v \<noteq> Absent \<and> k = kwarg None v"
  by (cases v) (auto simp: getitem_def kwarg_def)

lemma getitem_Inl: "getitem key v = Inl e \<longleftrightarrow> v = Absent \<and> e = KeyError key"
  by (cases v) (auto simp: getitem_def)




lemma Some_key: "Some v \<in> set (map (\<lambda>t. Some (f t)) xs) \<longleftrightarrow> v \<in> set (map f xs)"
  by auto









lemma added_keys_append: "added_keys (xs @ ys) = added_keys xs @ added_keys ys"
  by (induction xs rule: added_keys.induct) simp_all




















subsection \<open>Recipe payload validation\<close>

lemma tags_to_internal_value_ids:
  "tags_to_internal_value d ks = Inr ts \<Longrightarrow> map tag_id ts = ks"
proof (induction ks arbitrary: ts)
  case Nil
  then show ?case by simp
next
  case (Cons k ks)
  from Cons.prems obtain t ts' where t: "find (\<lambda>t. tag_id t = k) (tags d) = Some t"
    and rest: "tags_to_internal_value d ks = Inr ts'" and ts: "ts = t # ts'"
    by (auto split: option.splits sum.splits)
  have "tag_id t = k"
    using t by (auto simp: find_Some_iff)
  with Cons.IH [OF rest] ts show ?case by simp
qed

lemma validate_tags_loop_Inr:
  "validate_tags_loop ts existing = Inr u \<Longrightarrow> distinct (map tag_id ts)"
proof (induction ts arbitrary: existing)
  case Nil
  show ?case by simp
next
  case (Cons t ts)
  have seen: "validate_tags_loop ts existing' = Inr u' \<Longrightarrow> k \<in> existing' \<Longrightarrow> k \<notin> tag_id ` set ts"
    for ts existing' u' k
  proof (induction ts arbitrary: existing')
    case Nil
    show ?case by simp
  next
    case (Cons x xs)
    from Cons.prems(1) have new: "tag_id x \<notin> existing'"
      and rest: "validate_tags_loop xs (insert (tag_id x) existing') = Inr u'"
      by (simp_all split: if_splits)
    have "k \<notin> tag_id ` set xs"
      using Cons.IH [OF rest] Cons.prems(2) by simp
    moreover have "k \<noteq> tag_id x"
      using new Cons.prems(2) by blast
    ultimately show ?case by simp
  qed
  from Cons.prems have new: "tag_id t \<notin> existing"
    and rest: "validate_tags_loop ts (insert (tag_id t) existing) = Inr u"
    by (simp_all split: if_splits)
  have "tag_id t \<notin> tag_id ` set ts"
    using seen [OF rest] by simp
  with Cons.IH [OF rest] show ?case by simp
qed

lemma tags_field_invalid:
  assumes "ks = [] \<or> \<not> distinct ks"
  shows "\<exists>errors. validate_method
           (run_validation partial (Value ks) (tags_to_internal_value d)) validate_tags
         = Invalid errors"
proof (cases "tags_to_internal_value d ks")
  case (Inl errors)
  then show ?thesis
    by (simp add: run_validation_def validate_method_def)
next
  case (Inr ts)
  have ids: "map tag_id ts = ks"
    using Inr by (rule tags_to_internal_value_ids)
  have "\<exists>m. validate_tags ts = Inl m"
  proof (cases "ks = []")
    case True
    with ids show ?thesis by (simp add: validate_tags_def)
  next
    case False
    with assms ids have "\<not> distinct (map tag_id ts)" by simp
    then have "\<exists>m. validate_tags_loop ts {} = Inl m"
      using validate_tags_loop_Inr [of ts "{}"] by (cases "validate_tags_loop ts {}") auto
    then show ?thesis
      by (auto simp: validate_tags_def)
  qed
  with Inr show ?thesis
    by (auto simp: run_validation_def validate_method_def)
qed


lemma ListSerializer_collect_Inr:
  "ListSerializer_collect rs = Inr xs \<Longrightarrow> rs = map Inr xs"
proof (induction rs arbitrary: xs)
  case Nil
  then show ?case by simp
next
  case (Cons r rs)
  from Cons.prems obtain x xs' where "r = Inr x" "ListSerializer_collect rs = Inr xs'"
    "xs = x # xs'"
    by (auto split: sum.splits)
  with Cons.IH [of xs'] show ?case by simp
qed

lemma ListSerializer_collect_Inl:
  "Inl e \<in> set rs \<Longrightarrow> \<exists>errors. ListSerializer_collect rs = Inl errors"
proof (induction rs)
  case Nil
  then show ?case by simp
next
  case (Cons r rs)
  show ?case
  proof (cases "r = Inl e")
    case True
    then show ?thesis
      by (cases "ListSerializer_collect rs") simp_all
  next
    case False
    with Cons.prems have "Inl e \<in> set rs" by simp
    then obtain errors where "ListSerializer_collect rs = Inl errors"
      using Cons.IH by blast
    then show ?thesis
      by (cases r) simp_all
  qed
qed

lemma item_Inr:
  assumes "IngredientRecipeSerializer_run_validation d (k, a) = Inr (obj, a')"
  shows "find (\<lambda>i. ingredient_id i = k) (ingredients d) = Some obj \<and> ingredient_id obj = k
         \<and> a' = a \<and> 1 \<le> a"
proof -
  from assms have found: "find (\<lambda>i. ingredient_id i = k) (ingredients d) = Some obj"
    and "a' = a" and "\<not> a < 1"
    by (auto simp: IngredientRecipeSerializer_run_validation_def split: option.splits if_splits)
  moreover have "ingredient_id obj = k"
    using found by (auto simp: find_Some_iff)
  ultimately show ?thesis by simp
qed

lemma item_Inl:
  assumes "k \<notin> ingredient_id ` set (ingredients d) \<or> a < 1"
  shows "\<exists>errors. IngredientRecipeSerializer_run_validation d (k, a) = Inl errors"
proof (cases "find (\<lambda>i. ingredient_id i = k) (ingredients d)")
  case None
  then show ?thesis
    by (simp add: IngredientRecipeSerializer_run_validation_def)
next
  case (Some obj)
  then have "obj \<in> set (ingredients d)" "ingredient_id obj = k"
    by (auto simp: find_Some_iff)
  then have "k \<in> ingredient_id ` set (ingredients d)" by blast
  with assms have "a < 1" by blast
  with Some show ?thesis
    by (simp add: IngredientRecipeSerializer_run_validation_def)
qed

lemma ingredients_to_internal_value_Inr:
  assumes "ingredients_to_internal_value d items = Inr v"
  shows "map (\<lambda>(obj, a). (ingredient_id obj, a)) v = items"
    and "(obj, a) \<in> set v
         \<Longrightarrow> find (\<lambda>i. ingredient_id i = ingredient_id obj) (ingredients d) = Some obj"
proof -
  have rs: "map (IngredientRecipeSerializer_run_validation d) items = map Inr v"
    using assms unfolding ingredients_to_internal_value_def
    by (rule ListSerializer_collect_Inr)
  then have len: "length items = length v"
    by (metis length_map)
  have nth: "IngredientRecipeSerializer_run_validation d (items ! n) = Inr (v ! n)"
    if "n < length v" for n
    using rs that len by (metis nth_map)
  have each: "find (\<lambda>i. ingredient_id i = fst (items ! n)) (ingredients d) = Some (fst (v ! n))
              \<and> ingredient_id (fst (v ! n)) = fst (items ! n)
              \<and> snd (v ! n) = snd (items ! n)"
    if "n < length v" for n
    using item_Inr [of d "fst (items ! n)" "snd (items ! n)" "fst (v ! n)" "snd (v ! n)"]
      nth [OF that] by simp
  show "map (\<lambda>(obj, a). (ingredient_id obj, a)) v = items"
  proof (rule nth_equalityI)
    show "length (map (\<lambda>(obj, a). (ingredient_id obj, a)) v) = length items"
      using len by simp
  next
    fix n assume "n < length (map (\<lambda>(obj, a). (ingredient_id obj, a)) v)"
    then have n: "n < length v" by simp
    then show "map (\<lambda>(obj, a). (ingredient_id obj, a)) v ! n = items ! n"
      using each [OF n] by (simp add: split_def prod_eq_iff)
  qed
  show "find (\<lambda>i. ingredient_id i = ingredient_id obj) (ingredients d) = Some obj"
    if "(obj, a) \<in> set v"
  proof -
    from that obtain n where n: "n < length v" "v ! n = (obj, a)"
      by (auto simp: in_set_conv_nth)
    then show ?thesis
      using each [OF n(1)] by simp
  qed
qed

lemma validate_ingredients_loop_found:
  assumes "\<And>obj a. (obj, a) \<in> set v
            \<Longrightarrow> find (\<lambda>i. ingredient_id i = ingredient_id obj) (ingredients d) \<noteq> None"
  shows "validate_ingredients_loop d v existing acc \<noteq> Inl (IngredientNonexistent k)"
  using assms
proof (induction v arbitrary: existing acc)
  case Nil
  show ?case by simp
next
  case (Cons x v)
  obtain obj a where x: "x = (obj, a)" by (cases x)
  obtain ingredient where found:
    "find (\<lambda>i. ingredient_id i = ingredient_id obj) (ingredients d) = Some ingredient"
    using Cons.prems [of obj a] x by auto
  have rest: "validate_ingredients_loop d v existing' acc' \<noteq> Inl (IngredientNonexistent k)"
    for existing' acc'
  proof (rule Cons.IH)
    fix obj' a'
    assume "(obj', a') \<in> set v"
    then have "(obj', a') \<in> set (x # v)" by simp
    then show "find (\<lambda>i. ingredient_id i = ingredient_id obj') (ingredients d) \<noteq> None"
      by (rule Cons.prems)
  qed
  show ?case
    using rest by (simp add: x found)
qed

lemma validate_ingredients_loop_seen:
  "validate_ingredients_loop d v existing acc = Inr r \<Longrightarrow> k \<in> existing
     \<Longrightarrow> k \<notin> (ingredient_id \<circ> fst) ` set v"
proof (induction v arbitrary: existing acc)
  case Nil
  show ?case by simp
next
  case (Cons x v)
  obtain obj a where x: "x = (obj, a)" by (cases x)
  from Cons.prems(1) obtain ingredient where new: "ingredient_id obj \<notin> existing"
    and rest: "validate_ingredients_loop d v (insert (ingredient_id obj) existing)
                 (acc @ [(ingredient, a)]) = Inr r"
    by (auto simp: x split: option.splits if_splits)
  have "k \<notin> (ingredient_id \<circ> fst) ` set v"
    using Cons.IH [OF rest] Cons.prems(2) by simp
  moreover have "k \<noteq> ingredient_id obj"
    using new Cons.prems(2) by blast
  ultimately show ?case by (simp add: x)
qed

lemma validate_ingredients_loop_Inr:
  "validate_ingredients_loop d v existing acc = Inr r
     \<Longrightarrow> distinct (map (ingredient_id \<circ> fst) v)"
proof (induction v arbitrary: existing acc)
  case Nil
  show ?case by simp
next
  case (Cons x v)
  obtain obj a where x: "x = (obj, a)" by (cases x)
  from Cons.prems obtain ingredient where
    rest: "validate_ingredients_loop d v (insert (ingredient_id obj) existing)
                 (acc @ [(ingredient, a)]) = Inr r"
    by (auto simp: x split: option.splits if_splits)
  have "ingredient_id obj \<notin> (ingredient_id \<circ> fst) ` set v"
    using validate_ingredients_loop_seen [OF rest] by simp
  with Cons.IH [OF rest] show ?case by (simp add: x)
qed

lemma ingredients_field_invalid:
  assumes "items = [] \<or> \<not> distinct (map fst items)
           \<or> (\<exists>k a. (k, a) \<in> set items
                  \<and> (k \<notin> ingredient_id ` set (ingredients d) \<or> a < 1))"
  shows "\<exists>errors. validate_method
           (run_validation partial (Value items) (ingredients_to_internal_value d))
           (validate_ingredients d)
         = Invalid errors"
proof (cases "ingredients_to_internal_value d items")
  case (Inl errors)
  then show ?thesis
    by (simp add: run_validation_def validate_method_def)
next
  case (Inr v)
  have ids: "map (\<lambda>(obj, a). (ingredient_id obj, a)) v = items"
    using Inr by (rule ingredients_to_internal_value_Inr(1))
  then have keys: "map (ingredient_id \<circ> fst) v = map fst items"
    by (auto simp: split_def comp_def)
  have all_ok: "\<not> (\<exists>k a. (k, a) \<in> set items
                  \<and> (k \<notin> ingredient_id ` set (ingredients d) \<or> a < 1))"
  proof
    assume "\<exists>k a. (k, a) \<in> set items
              \<and> (k \<notin> ingredient_id ` set (ingredients d) \<or> a < 1)"
    then obtain k a where bad: "(k, a) \<in> set items"
      "k \<notin> ingredient_id ` set (ingredients d) \<or> a < 1" by blast
    obtain errors where "IngredientRecipeSerializer_run_validation d (k, a) = Inl errors"
      using item_Inl [OF bad(2)] by blast
    then have "Inl errors \<in> set (map (IngredientRecipeSerializer_run_validation d) items)"
      using bad(1) by (metis image_eqI list.set_map)
    then have "\<exists>es. ingredients_to_internal_value d items = Inl es"
      unfolding ingredients_to_internal_value_def by (rule ListSerializer_collect_Inl)
    with Inr show False by simp
  qed
  have "\<exists>m. validate_ingredients d v = Inl m"
  proof (cases "items = []")
    case True
    with ids show ?thesis by (simp add: validate_ingredients_def)
  next
    case False
    have "\<not> distinct (map fst items)"
      using assms False all_ok by blast
    then have "\<not> distinct (map (ingredient_id \<circ> fst) v)"
      unfolding keys .
    then have "\<exists>m. validate_ingredients_loop d v {} [] = Inl m"
      using validate_ingredients_loop_Inr [of d v "{}" "[]"]
      by (cases "validate_ingredients_loop d v {} []") auto
    moreover have "v \<noteq> []" using False ids by auto
    ultimately show ?thesis
      by (simp add: validate_ingredients_def)
  qed
  with Inr show ?thesis
    by (auto simp: run_validation_def validate_method_def)
qed


lemma is_valid_tags_invalid:
  assumes "validate_method (run_validation partial (p_tags p) (tags_to_internal_value d))
             validate_tags = Invalid es"
  shows "\<exists>errors. errors \<noteq> []
           \<and> RecipeSerializer_is_valid partial instance p d = Inl (ValidationError errors)"
  by (simp add: RecipeSerializer_is_valid_def Let_def assms errors_of_def)

lemma is_valid_ingredients_invalid:
  assumes "validate_method
             (run_validation partial (p_ingredients p) (ingredients_to_internal_value d))
             (validate_ingredients d) = Invalid es"
  shows "\<exists>errors. errors \<noteq> []
           \<and> RecipeSerializer_is_valid partial instance p d = Inl (ValidationError errors)"
  by (simp add: RecipeSerializer_is_valid_def Let_def assms errors_of_def)

lemma is_valid_rejects:
  assumes "p_tags p = Value [] \<or> (\<exists>ks. p_tags p = Value ks \<and> \<not> distinct ks)
           \<or> p_ingredients p = Value []
           \<or> (\<exists>items. p_ingredients p = Value items
                 \<and> (\<not> distinct (map fst items)
                      \<or> (\<exists>k a. (k, a) \<in> set items
                             \<and> (k \<notin> ingredient_id ` set (ingredients d) \<or> a < 1))))"
  shows "\<exists>errors. errors \<noteq> []
           \<and> RecipeSerializer_is_valid partial instance p d = Inl (ValidationError errors)"
proof -
  consider ks where "p_tags p = Value ks" "ks = [] \<or> \<not> distinct ks"
    | items where "p_ingredients p = Value items"
        "items = [] \<or> \<not> distinct (map fst items)
           \<or> (\<exists>k a. (k, a) \<in> set items
                  \<and> (k \<notin> ingredient_id ` set (ingredients d) \<or> a < 1))"
    using assms by blast
  then show ?thesis
  proof cases
    case 1
    obtain es where "validate_method
        (run_validation partial (p_tags p) (tags_to_internal_value d)) validate_tags = Invalid es"
      using tags_field_invalid [OF 1(2), of partial d] 1(1) by auto
    then show ?thesis by (rule is_valid_tags_invalid)
  next
    case 2
    obtain es where "validate_method
        (run_validation partial (p_ingredients p) (ingredients_to_internal_value d))
        (validate_ingredients d) = Invalid es"
      using ingredients_field_invalid [OF 2(2), of partial] 2(1) by auto
    then show ?thesis by (rule is_valid_ingredients_invalid)
  qed
qed

text \<open>
  C2. A payload whose tag list is empty or repeats a tag id, or whose ingredient list
  is empty, repeats an ingredient id, names an ingredient id that is not in the table,
  or has an amount below 1, is rejected by the creation with a ValidationError (status
  400) and the database is unchanged: no recipe row and no join row is created. The
  update of an existing recipe rejects it in the same way.
\<close>

theorem invalid_payload_rejected:
  assumes "p_tags p = Value [] \<or> (\<exists>ks. p_tags p = Value ks \<and> \<not> distinct ks)
           \<or> p_ingredients p = Value []
           \<or> (\<exists>items. p_ingredients p = Value items
                 \<and> (\<not> distinct (map fst items)
                      \<or> (\<exists>k a. (k, a) \<in> set items
                             \<and> (k \<notin> ingredient_id ` set (ingredients d) \<or> a < 1))))"
  shows "(\<exists>errors. errors \<noteq> []
            \<and> RecipeViewSet_create user p d = (Inl (ValidationError errors), d)
            \<and> status_code (Inl (ValidationError errors)) = 400)
       \<and> (filter (\<lambda>r. recipe_id r = k) (recipes d) = [recipe] \<longrightarrow>
            (\<exists>errors. errors \<noteq> []
               \<and> RecipeViewSet_update partial k p d = (Inl (ValidationError errors), d)
               \<and> status_code (Inl (ValidationError errors)) = 400))"
proof (intro conjI impI)
  obtain errors where "errors \<noteq> []"
    "RecipeSerializer_is_valid False None p d = Inl (ValidationError errors)"
    using is_valid_rejects [OF assms] by blast
  then show "\<exists>errors. errors \<noteq> []
            \<and> RecipeViewSet_create user p d = (Inl (ValidationError errors), d)
            \<and> status_code (Inl (ValidationError errors)) = 400"
    by (auto simp: RecipeViewSet_create_def status_code_def)
next
  assume found: "filter (\<lambda>r. recipe_id r = k) (recipes d) = [recipe]"
  obtain errors where "errors \<noteq> []"
    "RecipeSerializer_is_valid partial (Some (recipe_id recipe)) p d
       = Inl (ValidationError errors)"
    using is_valid_rejects [OF assms] by blast
  then show "\<exists>errors. errors \<noteq> []
               \<and> RecipeViewSet_update partial k p d = (Inl (ValidationError errors), d)
               \<and> status_code (Inl (ValidationError errors)) = 400"
    using get_object_or_404_single [OF found]
    by (auto simp: RecipeViewSet_update_def status_code_def)
qed

text \<open>
  C9. The value that reaches \<open>validate_ingredients\<close> is the output of the field stage:
  every entry of it is an ingredient that the primary-key field has found in the table
  under its id, so the lookup inside \<open>validate_ingredients\<close> finds it again and the
  "nonexistent ingredient" error is never the result.
\<close>

theorem nonexistent_ingredient_unreachable:
  assumes "ingredients_to_internal_value d items = Inr v"
  shows "(\<forall>obj a. (obj, a) \<in> set v \<longrightarrow>
            find (\<lambda>i. ingredient_id i = ingredient_id obj) (ingredients d) = Some obj)
       \<and> validate_ingredients d v \<noteq> Inl (IngredientNonexistent k)"
proof
  show resolved: "\<forall>obj a. (obj, a) \<in> set v \<longrightarrow>
            find (\<lambda>i. ingredient_id i = ingredient_id obj) (ingredients d) = Some obj"
    using ingredients_to_internal_value_Inr(2) [OF assms] by blast
  have "validate_ingredients_loop d v {} [] \<noteq> Inl (IngredientNonexistent k)"
  proof (rule validate_ingredients_loop_found)
    fix obj a
    assume "(obj, a) \<in> set v"
    then have "find (\<lambda>i. ingredient_id i = ingredient_id obj) (ingredients d) = Some obj"
      by (rule ingredients_to_internal_value_Inr(2) [OF assms])
    then show "find (\<lambda>i. ingredient_id i = ingredient_id obj) (ingredients d) \<noteq> None"
      by simp
  qed
  then show "validate_ingredients d v \<noteq> Inl (IngredientNonexistent k)"
    by (simp add: validate_ingredients_def)
qed


theorem invalid_payload_rejected_witness:
  "(\<exists>errors. errors \<noteq> []
      \<and> RecipeViewSet_create (AuthUser 1) example_bad_payload example_db
          = (Inl (ValidationError errors), example_db)
      \<and> status_code (Inl (ValidationError errors)) = 400)
   \<and> (\<exists>errors. errors \<noteq> []
      \<and> RecipeViewSet_update False 1 example_bad_payload example_db
          = (Inl (ValidationError errors), example_db)
      \<and> status_code (Inl (ValidationError errors)) = 400)"
proof -
  have bad: "p_tags example_bad_payload = Value []
      \<or> (\<exists>ks. p_tags example_bad_payload = Value ks \<and> \<not> distinct ks)
      \<or> p_ingredients example_bad_payload = Value []
      \<or> (\<exists>items. p_ingredients example_bad_payload = Value items
            \<and> (\<not> distinct (map fst items)
                 \<or> (\<exists>k a. (k, a) \<in> set items
                        \<and> (k \<notin> ingredient_id ` set (ingredients example_db) \<or> a < 1))))"
    by (simp add: example_bad_payload_def example_payload_def)
  have recipe: "filter (\<lambda>r. recipe_id r = 1) (recipes example_db) = [hd example_recipes]"
    by (simp add: example_db_def example_recipes_def)
  show ?thesis
    using invalid_payload_rejected
      [OF bad, where user = "AuthUser 1" and k = 1 and recipe = "hd example_recipes"
         and partial = False]
      recipe
    by simp
qed

theorem nonexistent_ingredient_unreachable_witness:
  "ingredients_to_internal_value example_db [(1, 10), (2, 5)]
     = Inr [(\<lparr>ingredient_id = 1, ingredient_name = ''Salt'', measurement_unit = ''g''\<rparr>, 10),
            (\<lparr>ingredient_id = 2, ingredient_name = ''Pepper'', measurement_unit = ''g''\<rparr>, 5)]
   \<and> validate_ingredients example_db
         [(\<lparr>ingredient_id = 1, ingredient_name = ''Salt'', measurement_unit = ''g''\<rparr>, 10),
          (\<lparr>ingredient_id = 2, ingredient_name = ''Pepper'', measurement_unit = ''g''\<rparr>, 5)]
       \<noteq> Inl (IngredientNonexistent 1)"
proof -
  have resolved: "ingredients_to_internal_value example_db [(1, 10), (2, 5)]
     = Inr [(\<lparr>ingredient_id = 1, ingredient_name = ''Salt'', measurement_unit = ''g''\<rparr>, 10),
            (\<lparr>ingredient_id = 2, ingredient_name = ''Pepper'', measurement_unit = ''g''\<rparr>, 5)]"
    by (simp add: ingredients_to_internal_value_def
          IngredientRecipeSerializer_run_validation_def example_db_def)
  show ?thesis
    using nonexistent_ingredient_unreachable [OF resolved, of 1] resolved by simp
qed

subsection \<open>Atomic recipe writes\<close>

lemma bulk_create_Inr:
  "bulk_create xs d = (Inr u, d') \<Longrightarrow> d' = d\<lparr>ingredientrecipes := ingredientrecipes d @ xs\<rparr>"
proof (induction xs arbitrary: d)
  case Nil
  then show ?case by simp
next
  case (Cons x xs)
  from Cons.prems have
    "bulk_create xs (d\<lparr>ingredientrecipes := ingredientrecipes d @ [x]\<rparr>) = (Inr u, d')"
    by (simp split: if_splits)
  from Cons.IH [OF this] show ?case by simp
qed

lemma tags_set_links:
  "{t. (r, t) \<in> set (recipe_tags (tags_set r objs d))} = tag_id ` set objs"
  by (auto simp: tags_set_def Let_def image_iff)

lemma tags_set_others:
  "r' \<noteq> r \<Longrightarrow> {t. (r', t) \<in> set (recipe_tags (tags_set r objs d))}
                 = {t. (r', t) \<in> set (recipe_tags d)}"
  by (auto simp: tags_set_def Let_def)

lemma transaction_atomic_Inl:
  "fst (transaction_atomic block d) = Inl e \<Longrightarrow> snd (transaction_atomic block d) = d"
  by (auto simp: transaction_atomic_def split: prod.splits sum.splits)

lemma transaction_atomic_Inr:
  "transaction_atomic block d = (Inr x, d') \<Longrightarrow> block d = (Inr x, d')"
  by (auto simp: transaction_atomic_def split: prod.splits sum.splits)


lemma Recipe_objects_create_Inr:
  "Recipe_objects_create author_data vd d = (Inr recipe, d1)
     \<Longrightarrow> d1 = d\<lparr>recipes := recipes d @ [recipe]\<rparr>"
  by (auto simp: Recipe_objects_create_def Let_def
        split: request_user.splits option.splits if_splits)

lemma ModelSerializer_update_Inr:
  "ModelSerializer_update inst vd d = (Inr updated, d1)
     \<Longrightarrow> recipe_id updated = recipe_id inst
         \<and> d1 = d\<lparr>recipes := map (\<lambda>r. if recipe_id r = recipe_id inst then updated else r)
                                 (recipes d)\<rparr>"
  by (auto simp: ModelSerializer_update_def Let_def split: if_splits)

lemma tags_set_tables [simp]:
  "recipes (tags_set r objs d) = recipes d"
  "ingredientrecipes (tags_set r objs d) = ingredientrecipes d"
  by (simp_all add: tags_set_def Let_def)

lemma tags_clear_tables [simp]:
  "recipes (tags_clear r d) = recipes d"
  "ingredientrecipes (tags_clear r d) = ingredientrecipes d"
  by (simp_all add: tags_clear_def)

lemma ingredients_clear_tables [simp]:
  "recipes (ingredients_clear r d) = recipes d"
  "recipe_tags (ingredients_clear r d) = recipe_tags d"
  "ingredientrecipes (ingredients_clear r d)
     = filter (\<lambda>ir. ir_recipe ir \<noteq> r) (ingredientrecipes d)"
  by (simp_all add: ingredients_clear_def)

lemma ingredient_recipe_list_Inr:
  assumes "ingredient_recipe_list ingredients_data r d = (Inr u, d')"
  shows "d' = d\<lparr>ingredientrecipes := ingredientrecipes d @
                 map (\<lambda>(ingredient, amount).
                        \<lparr>ir_recipe = r, ir_ingredient = ingredient_id ingredient,
                         ir_amount = amount\<rparr>) ingredients_data\<rparr>"
  using assms unfolding ingredient_recipe_list_def by (rule bulk_create_Inr)

lemma create_committed:
  assumes "RecipeSerializer_create user vd d = (Inr recipe, d')"
  shows "\<exists>tags_data ingredients_data.
           vd_tags vd = Some tags_data \<and> vd_ingredientrecipe_set vd = Some ingredients_data
           \<and> recipes d' = recipes d @ [recipe]
           \<and> {t. (recipe_id recipe, t) \<in> set (recipe_tags d')} = tag_id ` set tags_data
           \<and> ingredientrecipes d' = ingredientrecipes d @
                 map (\<lambda>(ingredient, amount).
                        \<lparr>ir_recipe = recipe_id recipe, ir_ingredient = ingredient_id ingredient,
                         ir_amount = amount\<rparr>) ingredients_data"
proof -
  have body: "create_body user vd d = (Inr recipe, d')"
    using assms unfolding RecipeSerializer_create_def by (rule transaction_atomic_Inr)
  then obtain tags_data ingredients_data d1 u where
    tags: "vd_tags vd = Some tags_data"
    and ings: "vd_ingredientrecipe_set vd = Some ingredients_data"
    and row: "Recipe_objects_create user vd d = (Inr recipe, d1)"
    and joins: "ingredient_recipe_list ingredients_data (recipe_id recipe)
                  (tags_set (recipe_id recipe) tags_data d1) = (Inr u, d')"
    by (auto simp: create_body_def Let_def split: option.splits prod.splits sum.splits)
  have d1: "d1 = d\<lparr>recipes := recipes d @ [recipe]\<rparr>"
    using row by (rule Recipe_objects_create_Inr)
  have d': "d' = (tags_set (recipe_id recipe) tags_data d1)
      \<lparr>ingredientrecipes := ingredientrecipes (tags_set (recipe_id recipe) tags_data d1) @
         map (\<lambda>(ingredient, amount).
                \<lparr>ir_recipe = recipe_id recipe, ir_ingredient = ingredient_id ingredient,
                 ir_amount = amount\<rparr>) ingredients_data\<rparr>"
    using joins by (rule ingredient_recipe_list_Inr)
  have "recipes d' = recipes d @ [recipe]"
    by (simp add: d' d1)
  moreover have "{t. (recipe_id recipe, t) \<in> set (recipe_tags d')} = tag_id ` set tags_data"
    using tags_set_links [of "recipe_id recipe" tags_data d1] by (simp add: d')
  moreover have "ingredientrecipes d' = ingredientrecipes d @
         map (\<lambda>(ingredient, amount).
                \<lparr>ir_recipe = recipe_id recipe, ir_ingredient = ingredient_id ingredient,
                 ir_amount = amount\<rparr>) ingredients_data"
    by (simp add: d' d1)
  ultimately show ?thesis
    using tags ings by blast
qed

lemma update_committed:
  assumes "RecipeSerializer_update inst vd d = (Inr recipe, d')"
  shows "\<exists>tags_data ingredients_data.
           vd_tags vd = Some tags_data \<and> vd_ingredientrecipe_set vd = Some ingredients_data
           \<and> recipe_id recipe = recipe_id inst
           \<and> recipes d' = map (\<lambda>r. if recipe_id r = recipe_id inst then recipe else r)
                               (recipes d)
           \<and> {t. (recipe_id inst, t) \<in> set (recipe_tags d')} = tag_id ` set tags_data
           \<and> filter (\<lambda>ir. ir_recipe ir = recipe_id inst) (ingredientrecipes d')
               = map (\<lambda>(ingredient, amount).
                        \<lparr>ir_recipe = recipe_id inst, ir_ingredient = ingredient_id ingredient,
                         ir_amount = amount\<rparr>) ingredients_data
           \<and> filter (\<lambda>ir. ir_recipe ir \<noteq> recipe_id inst) (ingredientrecipes d')
               = filter (\<lambda>ir. ir_recipe ir \<noteq> recipe_id inst) (ingredientrecipes d)"
proof -
  have body: "update_body inst vd d = (Inr recipe, d')"
    using assms unfolding RecipeSerializer_update_def by (rule transaction_atomic_Inr)
  then obtain tags_data ingredients_data d1 u where
    tags: "vd_tags vd = Some tags_data"
    and ings: "vd_ingredientrecipe_set vd = Some ingredients_data"
    and row: "ModelSerializer_update inst vd d = (Inr recipe, d1)"
    and joins: "ingredient_recipe_list ingredients_data (recipe_id inst)
                  (ingredients_clear (recipe_id recipe)
                     (tags_set (recipe_id recipe) tags_data
                        (tags_clear (recipe_id recipe) d1))) = (Inr u, d')"
    by (auto simp: update_body_def Let_def split: option.splits prod.splits sum.splits)
  have same: "recipe_id recipe = recipe_id inst"
    and d1: "d1 = d\<lparr>recipes := map (\<lambda>r. if recipe_id r = recipe_id inst then recipe else r)
                                    (recipes d)\<rparr>"
    using ModelSerializer_update_Inr [OF row] by simp_all
  let ?rows = "map (\<lambda>(ingredient, amount).
                \<lparr>ir_recipe = recipe_id inst, ir_ingredient = ingredient_id ingredient,
                 ir_amount = amount\<rparr>) ingredients_data"
  let ?d4 = "ingredients_clear (recipe_id inst)
               (tags_set (recipe_id inst) tags_data (tags_clear (recipe_id inst) d1))"
  have d': "d' = ?d4\<lparr>ingredientrecipes := ingredientrecipes ?d4 @ ?rows\<rparr>"
    using joins unfolding same by (rule ingredient_recipe_list_Inr)
  have own: "filter (\<lambda>ir. ir_recipe ir = recipe_id inst) ?rows = ?rows"
    by (induction ingredients_data) auto
  have other: "filter (\<lambda>ir. ir_recipe ir \<noteq> recipe_id inst) ?rows = []"
    by (induction ingredients_data) auto
  have "recipes d' = map (\<lambda>r. if recipe_id r = recipe_id inst then recipe else r) (recipes d)"
    by (simp add: d' d1)
  moreover have "{t. (recipe_id inst, t) \<in> set (recipe_tags d')} = tag_id ` set tags_data"
    using tags_set_links [of "recipe_id inst" tags_data "tags_clear (recipe_id inst) d1"]
    by (simp add: d')
  moreover have "filter (\<lambda>ir. ir_recipe ir = recipe_id inst) (ingredientrecipes d') = ?rows"
    by (simp add: d' own)
  moreover have "filter (\<lambda>ir. ir_recipe ir \<noteq> recipe_id inst) (ingredientrecipes d')
               = filter (\<lambda>ir. ir_recipe ir \<noteq> recipe_id inst) (ingredientrecipes d)"
    by (simp add: d' d1 other)
  ultimately show ?thesis
    using tags ings same by blast
qed


text \<open>
  C1. Creation and update of a recipe are all-or-nothing. When the serializer's
  \<open>create\<close> or \<open>update\<close>, or the action that calls it, ends with an exception, the
  database is the one before the call: no recipe row, tag pair or join row of the
  attempt remains. When \<open>create\<close> returns, the recipe row has been appended, the tag
  pairs of the recipe are exactly the tags of the payload, and the join rows of the
  payload have been appended; when \<open>update\<close> returns, the recipe row has been replaced,
  the tag pairs of the recipe are exactly the tags of the payload, the join rows of
  the recipe are exactly those of the payload, and the join rows of the other recipes
  are as before.
\<close>

theorem recipe_write_atomic:
  "(fst (RecipeSerializer_create user vd d) = Inl e
      \<longrightarrow> snd (RecipeSerializer_create user vd d) = d)
   \<and> (fst (RecipeSerializer_update inst vd d) = Inl e
      \<longrightarrow> snd (RecipeSerializer_update inst vd d) = d)
   \<and> (fst (RecipeViewSet_create user p d) = Inl e
      \<longrightarrow> snd (RecipeViewSet_create user p d) = d)
   \<and> (fst (RecipeViewSet_update partial k p d) = Inl e
      \<longrightarrow> snd (RecipeViewSet_update partial k p d) = d)
   \<and> (RecipeSerializer_create user vd d = (Inr recipe, d') \<longrightarrow>
        (\<exists>tags_data ingredients_data.
           vd_tags vd = Some tags_data \<and> vd_ingredientrecipe_set vd = Some ingredients_data
           \<and> recipes d' = recipes d @ [recipe]
           \<and> {t. (recipe_id recipe, t) \<in> set (recipe_tags d')} = tag_id ` set tags_data
           \<and> ingredientrecipes d' = ingredientrecipes d @
                 map (\<lambda>(ingredient, amount).
                        \<lparr>ir_recipe = recipe_id recipe, ir_ingredient = ingredient_id ingredient,
                         ir_amount = amount\<rparr>) ingredients_data))
   \<and> (RecipeSerializer_update inst vd d = (Inr recipe, d') \<longrightarrow>
        (\<exists>tags_data ingredients_data.
           vd_tags vd = Some tags_data \<and> vd_ingredientrecipe_set vd = Some ingredients_data
           \<and> recipe_id recipe = recipe_id inst
           \<and> recipes d' = map (\<lambda>r. if recipe_id r = recipe_id inst then recipe else r)
                               (recipes d)
           \<and> {t. (recipe_id inst, t) \<in> set (recipe_tags d')} = tag_id ` set tags_data
           \<and> filter (\<lambda>ir. ir_recipe ir = recipe_id inst) (ingredientrecipes d')
               = map (\<lambda>(ingredient, amount).
                        \<lparr>ir_recipe = recipe_id inst, ir_ingredient = ingredient_id ingredient,
                         ir_amount = amount\<rparr>) ingredients_data
           \<and> filter (\<lambda>ir. ir_recipe ir \<noteq> recipe_id inst) (ingredientrecipes d')
               = filter (\<lambda>ir. ir_recipe ir \<noteq> recipe_id inst) (ingredientrecipes d)))"
proof (intro conjI impI)
  assume "fst (RecipeSerializer_create user vd d) = Inl e"
  then show "snd (RecipeSerializer_create user vd d) = d"
    unfolding RecipeSerializer_create_def by (rule transaction_atomic_Inl)
next
  assume "fst (RecipeSerializer_update inst vd d) = Inl e"
  then show "snd (RecipeSerializer_update inst vd d) = d"
    unfolding RecipeSerializer_update_def by (rule transaction_atomic_Inl)
next
  assume failed: "fst (RecipeViewSet_create user p d) = Inl e"
  show "snd (RecipeViewSet_create user p d) = d"
  proof (cases "RecipeSerializer_is_valid False None p d")
    case (Inl err)
    then show ?thesis by (simp add: RecipeViewSet_create_def)
  next
    case (Inr data)
    obtain r d1 where saved: "RecipeSerializer_create user data d = (r, d1)"
      by (cases "RecipeSerializer_create user data d")
    show ?thesis
    proof (cases r)
      case (Inl err)
      then have "d1 = d"
        using saved transaction_atomic_Inl [of "create_body user data" d err]
        by (simp add: RecipeSerializer_create_def)
      with Inr saved Inl show ?thesis by (simp add: RecipeViewSet_create_def)
    next
      case (Inr recipe)
      with \<open>RecipeSerializer_is_valid False None p d = Inr data\<close> saved failed
      show ?thesis by (simp add: RecipeViewSet_create_def)
    qed
  qed
next
  assume failed: "fst (RecipeViewSet_update partial k p d) = Inl e"
  show "snd (RecipeViewSet_update partial k p d) = d"
  proof (cases "get_object_or_404 (\<lambda>r. recipe_id r = k) (recipes d)")
    case (Inl err)
    then show ?thesis by (simp add: RecipeViewSet_update_def)
  next
    case found: (Inr obj)
    show ?thesis
    proof (cases "RecipeSerializer_is_valid partial (Some (recipe_id obj)) p d")
      case (Inl err)
      with found show ?thesis by (simp add: RecipeViewSet_update_def)
    next
      case valid: (Inr data)
      obtain r d1 where saved: "RecipeSerializer_update obj data d = (r, d1)"
        by (cases "RecipeSerializer_update obj data d")
      show ?thesis
      proof (cases r)
        case (Inl err)
        then have "d1 = d"
          using saved transaction_atomic_Inl [of "update_body obj data" d err]
          by (simp add: RecipeSerializer_update_def)
        with found valid saved Inl show ?thesis by (simp add: RecipeViewSet_update_def)
      next
        case (Inr recipe)
        with found valid saved failed show ?thesis by (simp add: RecipeViewSet_update_def)
      qed
    qed
  qed
next
  assume "RecipeSerializer_create user vd d = (Inr recipe, d')"
  then show "\<exists>tags_data ingredients_data.
           vd_tags vd = Some tags_data \<and> vd_ingredientrecipe_set vd = Some ingredients_data
           \<and> recipes d' = recipes d @ [recipe]
           \<and> {t. (recipe_id recipe, t) \<in> set (recipe_tags d')} = tag_id ` set tags_data
           \<and> ingredientrecipes d' = ingredientrecipes d @
                 map (\<lambda>(ingredient, amount).
                        \<lparr>ir_recipe = recipe_id recipe, ir_ingredient = ingredient_id ingredient,
                         ir_amount = amount\<rparr>) ingredients_data"
    by (rule create_committed)
next
  assume "RecipeSerializer_update inst vd d = (Inr recipe, d')"
  then show "\<exists>tags_data ingredients_data.
           vd_tags vd = Some tags_data \<and> vd_ingredientrecipe_set vd = Some ingredients_data
           \<and> recipe_id recipe = recipe_id inst
           \<and> recipes d' = map (\<lambda>r. if recipe_id r = recipe_id inst then recipe else r)
                               (recipes d)
           \<and> {t. (recipe_id inst, t) \<in> set (recipe_tags d')} = tag_id ` set tags_data
           \<and> filter (\<lambda>ir. ir_recipe ir = recipe_id inst) (ingredientrecipes d')
               = map (\<lambda>(ingredient, amount).
                        \<lparr>ir_recipe = recipe_id inst, ir_ingredient = ingredient_id ingredient,
                         ir_amount = amount\<rparr>) ingredients_data
           \<and> filter (\<lambda>ir. ir_recipe ir \<noteq> recipe_id inst) (ingredientrecipes d')
               = filter (\<lambda>ir. ir_recipe ir \<noteq> recipe_id inst) (ingredientrecipes d)"
    by (rule update_committed)
qed

theorem recipe_write_atomic_witness:
  "fst (create_body (AuthUser 1) example_validated_data example_db) = Inl DataError
   \<and> length (recipes (snd (create_body (AuthUser 1) example_validated_data example_db))) = 3
   \<and> length (recipes example_db) = 2
   \<and> fst (RecipeSerializer_create (AuthUser 1) example_validated_data example_db)
       = Inl DataError
   \<and> snd (RecipeSerializer_create (AuthUser 1) example_validated_data example_db) = example_db
   \<and> fst (RecipeViewSet_create (AuthUser 1) example_large_payload example_db) = Inl DataError
   \<and> snd (RecipeViewSet_create (AuthUser 1) example_large_payload example_db) = example_db"
proof -
  have body: "fst (create_body (AuthUser 1) example_validated_data example_db) = Inl DataError
      \<and> length (recipes (snd (create_body (AuthUser 1) example_validated_data example_db))) = 3
      \<and> length (recipes example_db) = 2"
    by code_simp
  have saved: "fst (RecipeSerializer_create (AuthUser 1) example_validated_data example_db)
      = Inl DataError"
    by code_simp
  have posted: "fst (RecipeViewSet_create (AuthUser 1) example_large_payload example_db)
      = Inl DataError"
    by code_simp
  show ?thesis
    using body saved posted
      recipe_write_atomic
        [where user = "AuthUser 1" and vd = example_validated_data and d = example_db
           and e = DataError and p = example_large_payload]
    by simp
qed

subsection \<open>Uniqueness invariants\<close>

lemma unique_rows_other_tables [simp]:
  "unique_rows (d\<lparr>users := us\<rparr>) = unique_rows d"
  "unique_rows (d\<lparr>tags := ts\<rparr>) = unique_rows d"
  "unique_rows (d\<lparr>ingredients := is\<rparr>) = unique_rows d"
  "unique_rows (d\<lparr>recipes := rs\<rparr>) = unique_rows d"
  "unique_rows (d\<lparr>recipe_tags := rt\<rparr>) = unique_rows d"
  by (simp_all add: unique_rows_def)

lemma unique_rows_tags_set [simp]: "unique_rows (tags_set r objs d) = unique_rows d"
  by (simp add: tags_set_def Let_def)

lemma unique_rows_tags_clear [simp]: "unique_rows (tags_clear r d) = unique_rows d"
  by (simp add: tags_clear_def)

lemma unique_rows_ingredients_clear:
  "unique_rows d \<Longrightarrow> unique_rows (ingredients_clear r d)"
  by (simp add: unique_rows_def ingredients_clear_def distinct_map_filter)

lemma bulk_create_unique:
  "bulk_create xs d = (r, d') \<Longrightarrow> unique_rows d \<Longrightarrow> unique_rows d'"
proof (induction xs arbitrary: d)
  case Nil
  then show ?case by simp
next
  case (Cons x xs)
  let ?d1 = "d\<lparr>ingredientrecipes := ingredientrecipes d @ [x]\<rparr>"
  show ?case
  proof (cases "ir_amount x < 0 \<or> 32767 < ir_amount x
                \<or> exists_qs (filter (\<lambda>ir. ir_recipe ir = ir_recipe x
                                        \<and> ir_ingredient ir = ir_ingredient x)
                             (ingredientrecipes d))")
    case True
    with Cons.prems show ?thesis by (auto split: if_splits)
  next
    case False
    then have rest: "bulk_create xs ?d1 = (r, d')"
      using Cons.prems(1) by simp
    have "(ir_recipe x, ir_ingredient x)
          \<notin> set (map (\<lambda>ir. (ir_recipe ir, ir_ingredient ir)) (ingredientrecipes d))"
    proof
      assume "(ir_recipe x, ir_ingredient x)
              \<in> set (map (\<lambda>ir. (ir_recipe ir, ir_ingredient ir)) (ingredientrecipes d))"
      then obtain ir where "ir \<in> set (ingredientrecipes d)" "ir_recipe ir = ir_recipe x"
        "ir_ingredient ir = ir_ingredient x"
        by auto
      then have "exists_qs (filter (\<lambda>ir. ir_recipe ir = ir_recipe x
                                        \<and> ir_ingredient ir = ir_ingredient x)
                             (ingredientrecipes d))"
        unfolding exists_qs_filter by blast
      with False show False by simp
    qed
    then have "unique_rows ?d1"
      using Cons.prems(2) by (simp add: unique_rows_def)
    with Cons.IH [OF rest] show ?thesis .
  qed
qed

lemma Recipe_objects_create_unique:
  "Recipe_objects_create author_data vd d = (r, d1) \<Longrightarrow> unique_rows d1 = unique_rows d"
  by (auto simp: Recipe_objects_create_def Let_def
        split: request_user.splits option.splits if_splits)

lemma ModelSerializer_update_unique:
  "ModelSerializer_update inst vd d = (r, d1) \<Longrightarrow> unique_rows d1 = unique_rows d"
  by (auto simp: ModelSerializer_update_def Let_def split: if_splits)

lemma create_body_unique:
  assumes "unique_rows d"
  shows "unique_rows (snd (create_body user vd d))"
proof (cases "vd_tags vd")
  case None
  with assms show ?thesis by (simp add: create_body_def)
next
  case tags: (Some tags_data)
  show ?thesis
  proof (cases "vd_ingredientrecipe_set vd")
    case None
    with assms tags show ?thesis by (simp add: create_body_def)
  next
    case ings: (Some ingredients_data)
    obtain r d1 where row: "Recipe_objects_create user vd d = (r, d1)"
      by (cases "Recipe_objects_create user vd d")
    have d1: "unique_rows d1"
      using Recipe_objects_create_unique [OF row] assms by simp
    show ?thesis
    proof (cases r)
      case (Inl e)
      with tags ings row d1 show ?thesis by (simp add: create_body_def)
    next
      case (Inr recipe)
      obtain r2 d3 where joins:
        "ingredient_recipe_list ingredients_data (recipe_id recipe)
           (tags_set (recipe_id recipe) tags_data d1) = (r2, d3)"
        by (cases "ingredient_recipe_list ingredients_data (recipe_id recipe)
                     (tags_set (recipe_id recipe) tags_data d1)")
      have "unique_rows d3"
        using joins d1 unfolding ingredient_recipe_list_def
        by (rule bulk_create_unique [where d = "tags_set (recipe_id recipe) tags_data d1",
                simplified])
      with tags ings row Inr joins show ?thesis
        by (cases r2) (simp_all add: create_body_def Let_def)
    qed
  qed
qed


lemma update_body_unique:
  assumes "unique_rows d"
  shows "unique_rows (snd (update_body inst vd d))"
proof (cases "vd_tags vd")
  case None
  with assms show ?thesis by (simp add: update_body_def)
next
  case tags: (Some tags_data)
  show ?thesis
  proof (cases "vd_ingredientrecipe_set vd")
    case None
    with assms tags show ?thesis by (simp add: update_body_def)
  next
    case ings: (Some ingredients_data)
    obtain r d1 where row: "ModelSerializer_update inst vd d = (r, d1)"
      by (cases "ModelSerializer_update inst vd d")
    have d1: "unique_rows d1"
      using ModelSerializer_update_unique [OF row] assms by simp
    show ?thesis
    proof (cases r)
      case (Inl e)
      with tags ings row d1 show ?thesis by (simp add: update_body_def)
    next
      case (Inr recipe)
      let ?d4 = "ingredients_clear (recipe_id recipe)
                   (tags_set (recipe_id recipe) tags_data (tags_clear (recipe_id recipe) d1))"
      have d4: "unique_rows ?d4"
        using d1 by (simp add: unique_rows_ingredients_clear)
      obtain r2 d5 where joins:
        "ingredient_recipe_list ingredients_data (recipe_id inst) ?d4 = (r2, d5)"
        by (cases "ingredient_recipe_list ingredients_data (recipe_id inst) ?d4")
      have "unique_rows d5"
        using joins d4 unfolding ingredient_recipe_list_def by (rule bulk_create_unique)
      with tags ings row Inr joins show ?thesis
        by (cases r2) (simp_all add: update_body_def Let_def)
    qed
  qed
qed

lemma transaction_atomic_cases:
  "snd (transaction_atomic block d) = d \<or> snd (transaction_atomic block d) = snd (block d)"
  by (auto simp: transaction_atomic_def split: prod.splits sum.splits)

lemma RecipeViewSet_create_unique:
  assumes "unique_rows d"
  shows "unique_rows (snd (RecipeViewSet_create user p d))"
proof (cases "RecipeSerializer_is_valid False None p d")
  case (Inl e)
  with assms show ?thesis by (simp add: RecipeViewSet_create_def)
next
  case (Inr data)
  have "unique_rows (snd (RecipeSerializer_create user data d))"
    using transaction_atomic_cases [of "create_body user data" d]
      create_body_unique [OF assms, of user data] assms
    by (auto simp: RecipeSerializer_create_def)
  moreover have "snd (RecipeViewSet_create user p d) = snd (RecipeSerializer_create user data d)"
    using Inr by (simp add: RecipeViewSet_create_def split: prod.splits sum.splits)
  ultimately show ?thesis by simp
qed

lemma RecipeViewSet_update_unique:
  assumes "unique_rows d"
  shows "unique_rows (snd (RecipeViewSet_update partial k p d))"
proof (cases "get_object_or_404 (\<lambda>r. recipe_id r = k) (recipes d)")
  case (Inl e)
  with assms show ?thesis by (simp add: RecipeViewSet_update_def)
next
  case found: (Inr obj)
  show ?thesis
  proof (cases "RecipeSerializer_is_valid partial (Some (recipe_id obj)) p d")
    case (Inl e)
    with assms found show ?thesis by (simp add: RecipeViewSet_update_def)
  next
    case (Inr data)
    have "unique_rows (snd (RecipeSerializer_update obj data d))"
      using transaction_atomic_cases [of "update_body obj data" d]
        update_body_unique [OF assms, of obj data] assms
      by (auto simp: RecipeSerializer_update_def)
    moreover have "snd (RecipeViewSet_update partial k p d)
        = snd (RecipeSerializer_update obj data d)"
      using found Inr by (simp add: RecipeViewSet_update_def split: prod.splits sum.splits)
    ultimately show ?thesis by simp
  qed
qed

lemma RecipeViewSet_destroy_unique:
  assumes "unique_rows d"
  shows "unique_rows (snd (RecipeViewSet_destroy k d))"
  using assms
  by (cases "get_object_or_404 (\<lambda>r. recipe_id r = k) (recipes d)")
    (simp_all add: RecipeViewSet_destroy_def unique_rows_def distinct_map_filter)

lemma unique_rows_with_objects:
  "unique_rows d \<Longrightarrow> distinct rows \<Longrightarrow> unique_rows (with_objects m rows d)"
  by (cases m) (simp_all add: unique_rows_def with_objects_def)

lemma unique_rows_objects: "unique_rows d \<Longrightarrow> distinct (objects m d)"
  by (cases m) (simp_all add: unique_rows_def objects_def)

lemma add_obj_unique:
  assumes "unique_rows d"
  shows "unique_rows (snd (add_obj m r u d))"
proof (cases "\<lparr>row_recipe = r, row_user = u\<rparr> \<in> set (objects m d)")
  case True
  with assms show ?thesis
    by (simp add: add_obj_def model_objects_create_def exists_row)
next
  case False
  then have "distinct (objects m d @ [\<lparr>row_recipe = r, row_user = u\<rparr>])"
    using unique_rows_objects [OF assms, of m] by simp
  then have "unique_rows (with_objects m (objects m d @ [\<lparr>row_recipe = r, row_user = u\<rparr>]) d)"
    using assms by (simp add: unique_rows_with_objects)
  with False show ?thesis
    by (simp add: add_obj_def model_objects_create_def exists_row)
qed

lemma del_obj_unique:
  assumes "unique_rows d"
  shows "unique_rows (snd (del_obj m r u d))"
proof (cases "objects_get (\<lambda>x. row_recipe x = r \<and> row_user x = u) (objects m d)")
  case (Inl e)
  with assms show ?thesis by (simp add: del_obj_def)
next
  case (Inr obj)
  have "distinct (filter (\<lambda>x. x \<noteq> obj) (objects m d))"
    using unique_rows_objects [OF assms, of m] by simp
  then have "unique_rows (with_objects m (filter (\<lambda>x. x \<noteq> obj) (objects m d)) d)"
    using assms by (simp add: unique_rows_with_objects)
  with Inr show ?thesis by (simp add: del_obj_def)
qed

lemma favorite_unique:
  assumes "unique_rows d"
  shows "unique_rows (snd (favorite method k u d))"
proof (cases "serialize_obj Favorite method k u d")
  case (Inl e)
  with assms show ?thesis by (simp add: favorite_def)
next
  case (Inr found)
  obtain recipe user where found: "found = (recipe, user)" by (cases found)
  show ?thesis
  proof (cases "method = POST")
    case True
    have "snd (favorite method k u d) = snd (add_obj Favorite (recipe_id recipe) user d)"
      using Inr found True by (simp add: favorite_def split: prod.splits sum.splits)
    then show ?thesis using add_obj_unique [OF assms] by simp
  next
    case False
    have "snd (favorite method k u d) = snd (del_obj Favorite (recipe_id recipe) user d)"
      using Inr found False by (simp add: favorite_def split: prod.splits sum.splits)
    then show ?thesis using del_obj_unique [OF assms] by simp
  qed
qed

lemma shopping_cart_unique:
  assumes "unique_rows d"
  shows "unique_rows (snd (shopping_cart method k u d))"
proof (cases "serialize_obj ShoppingCart method k u d")
  case (Inl e)
  with assms show ?thesis by (simp add: shopping_cart_def)
next
  case (Inr found)
  obtain recipe user where found: "found = (recipe, user)" by (cases found)
  show ?thesis
  proof (cases "method = POST")
    case True
    have "snd (shopping_cart method k u d)
          = snd (add_obj ShoppingCart (recipe_id recipe) user d)"
      using Inr found True by (simp add: shopping_cart_def split: prod.splits sum.splits)
    then show ?thesis using add_obj_unique [OF assms] by simp
  next
    case False
    have "snd (shopping_cart method k u d)
          = snd (del_obj ShoppingCart (recipe_id recipe) user d)"
      using Inr found False by (simp add: shopping_cart_def split: prod.splits sum.splits)
    then show ?thesis using del_obj_unique [OF assms] by simp
  qed
qed

lemma Subscribe_objects_create_unique:
  assumes "unique_rows d"
  shows "unique_rows (snd (Subscribe_objects_create a f d))"
proof (cases "\<lparr>sub_author = a, sub_follower = f\<rparr> \<in> set (subscribes d)")
  case True
  with assms show ?thesis
    by (simp add: Subscribe_objects_create_def exists_subscription)
next
  case False
  with assms show ?thesis
    by (simp add: Subscribe_objects_create_def exists_subscription unique_rows_def)
qed

lemma subscribe_unique:
  assumes "unique_rows d"
  shows "unique_rows (snd (subscribe method a f d))"
proof -
  have removed: "unique_rows (d\<lparr>subscribes := filter (\<lambda>s. s \<noteq> x) (subscribes d)\<rparr>)" for x
    using assms by (simp add: unique_rows_def)
  show ?thesis
  proof (cases "get_object_or_404 (\<lambda>u. user_id u = a) (users d)")
    case (Inl e)
    with assms show ?thesis by (simp add: subscribe_def)
  next
    case found: (Inr author)
    show ?thesis
    proof (cases "SubscribeSerializer_validate method (user_id author) f d")
      case (Inl e)
      with assms found show ?thesis by (simp add: subscribe_def)
    next
      case valid: (Inr u)
      show ?thesis
      proof (cases "method = POST")
        case True
        have "snd (subscribe method a f d)
              = snd (Subscribe_objects_create (user_id author) f d)"
          using found valid True by (simp add: subscribe_def split: prod.splits sum.splits)
        then show ?thesis
          using Subscribe_objects_create_unique [OF assms] by simp
      next
        case False
        show ?thesis
        proof (cases "objects_get
                        (\<lambda>s. sub_author s = user_id author \<and> sub_follower s = f)
                        (subscribes d)")
          case (Inl e)
          with assms found valid False show ?thesis by (simp add: subscribe_def)
        next
          case (Inr x)
          with found valid False removed [of x] show ?thesis by (simp add: subscribe_def)
        qed
      qed
    qed
  qed
qed


lemma load_ingredients_unique:
  assumes "unique_rows d"
  shows "unique_rows (fst (snd (load_ingredients ingredients_data d)))"
proof -
  obtain new events where
    "snd (load_ingredients_loop ingredients_data (d, []))
       = (d\<lparr>ingredients := ingredients d @ new\<rparr>, [] @ events)"
    using load_ingredients_loop_appends [of ingredients_data d "[]"] by blast
  with assms show ?thesis
    by (cases "load_ingredients_loop ingredients_data (d, [])")
       (simp add: load_ingredients_def split: sum.splits)
qed

lemma load_tags_unique:
  assumes "unique_rows d"
  shows "unique_rows (fst (snd (load_tags tags_data d)))"
proof -
  obtain new events where
    "snd (load_tags_loop tags_data (d, [])) = (d\<lparr>tags := tags d @ new\<rparr>, [] @ events)"
    using load_tags_loop_appends [of tags_data d "[]"] by blast
  with assms show ?thesis
    by (cases "load_tags_loop tags_data (d, [])")
       (simp add: load_tags_def split: sum.splits)
qed

lemma perform_unique: "unique_rows d \<Longrightarrow> unique_rows (perform operation d)"
proof (cases operation)
  case (CreateRecipe user p)
  assume "unique_rows d"
  then show ?thesis unfolding CreateRecipe perform.simps by (rule RecipeViewSet_create_unique)
next
  case (UpdateRecipe partial k p)
  assume "unique_rows d"
  then show ?thesis unfolding UpdateRecipe perform.simps by (rule RecipeViewSet_update_unique)
next
  case (DestroyRecipe k)
  assume "unique_rows d"
  then show ?thesis unfolding DestroyRecipe perform.simps by (rule RecipeViewSet_destroy_unique)
next
  case (FavoriteAction m k u)
  assume "unique_rows d"
  then show ?thesis unfolding FavoriteAction perform.simps by (rule favorite_unique)
next
  case (ShoppingCartAction m k u)
  assume "unique_rows d"
  then show ?thesis unfolding ShoppingCartAction perform.simps by (rule shopping_cart_unique)
next
  case (SubscribeAction m a f)
  assume "unique_rows d"
  then show ?thesis unfolding SubscribeAction perform.simps by (rule subscribe_unique)
next
  case (LoadIngredients ingredients_data)
  assume "unique_rows d"
  then show ?thesis unfolding LoadIngredients perform.simps by (rule load_ingredients_unique)
next
  case (LoadTags tags_data)
  assume "unique_rows d"
  then show ?thesis unfolding LoadTags perform.simps by (rule load_tags_unique)
qed

text \<open>
  C8. The uniqueness invariants hold in every reachable state: no two rows of the
  ingredient-recipe table share the same (recipe, ingredient) pair, no two favorite rows and no
  two shopping-cart rows share the same (recipe, user) pair, and no two subscription rows share
  the same (author, follower) pair. Every operation preserves them: from a state that satisfies
  \<^const>\<open>unique_rows\<close>, each of recipe creation, update and deletion, the favorite,
  shopping-cart and subscribe actions and the two loaders ends in a state that satisfies it,
  whether the operation succeeds or fails. The states reachable from one whose six recipe-side
  tables are empty therefore all satisfy it.
\<close>

theorem uniqueness_invariants:
  "(unique_rows d \<longrightarrow> unique_rows (perform operation d))
   \<and> (reachable d \<longrightarrow> unique_rows d)"
proof (intro conjI impI)
  assume "unique_rows d"
  then show "unique_rows (perform operation d)" by (rule perform_unique)
next
  assume "reachable d"
  then show "unique_rows d"
  proof (induction rule: reachable.induct)
    case (initial d)
    then show ?case by (simp add: unique_rows_def)
  next
    case (step d operation)
    then show ?case by (simp add: perform_unique)
  qed
qed

theorem uniqueness_invariants_witness:
  "unique_rows example_db
   \<and> unique_rows (perform (FavoriteAction POST 2 2) example_db)
   \<and> reachable (perform (CreateRecipe (AuthUser 1) example_payload) example_initial_db)
   \<and> unique_rows (perform (CreateRecipe (AuthUser 1) example_payload) example_initial_db)"
proof -
  have unique: "unique_rows example_db"
    by (simp add: unique_rows_def example_db_def)
  have "reachable example_initial_db"
    by (rule reachable.initial) (simp_all add: example_initial_db_def)
  then have reached:
    "reachable (perform (CreateRecipe (AuthUser 1) example_payload) example_initial_db)"
    by (rule reachable.step)
  show ?thesis
    using unique reached
      uniqueness_invariants [where d = example_db and operation = "FavoriteAction POST 2 2"]
      uniqueness_invariants
        [where d = "perform (CreateRecipe (AuthUser 1) example_payload) example_initial_db"]
    by simp
qed

end
